theory Spec2Isabelle
  imports Main
begin

section \<open>Parsed JSON documents and the Python operations the program applies to them\<close>

text \<open>
  The program (\<^verbatim>\<open>app.py\<close>) works on documents produced by \<^verbatim>\<open>response.json()\<close>.
  A document is a value of \<open>json\<close>. A dictionary is an association list in insertion
  order; its keys are strings, and a parsed dictionary has no key twice.
  Strings are lists of characters, one \<open>char\<close> per code point (code points below 256);
  numbers are integers (a JSON number with a fraction is outside this model).
\<close>

datatype json =
    JNull
  | JBool bool
  | JInt int
  | JStr string
  | JList "json list"
  | JDict "(string \<times> json) list"

text \<open>The exceptions the program can raise on a document of unexpected shape.\<close>

datatype error = KeyError | TypeError | AttributeError

definition bindE :: "error + 'a \<Rightarrow> ('a \<Rightarrow> error + 'b) \<Rightarrow> error + 'b" where
  "bindE m f = (case m of Inl e \<Rightarrow> Inl e | Inr x \<Rightarrow> f x)"

text \<open>A comprehension or loop whose body may raise: the first exception ends it.\<close>

fun mapE :: "('a \<Rightarrow> error + 'b) \<Rightarrow> 'a list \<Rightarrow> error + 'b list" where
  "mapE f [] = Inr []"
| "mapE f (x # xs) = bindE (f x) (\<lambda>y. bindE (mapE f xs) (\<lambda>ys. Inr (y # ys)))"

text \<open>Truth value of an object (\<^verbatim>\<open>if x\<close>, \<^verbatim>\<open>x or y\<close>).\<close>

fun py_truthy :: "json \<Rightarrow> bool" where
  "py_truthy JNull = False"
| "py_truthy (JBool b) = b"
| "py_truthy (JInt i) = (i \<noteq> 0)"
| "py_truthy (JStr s) = (s \<noteq> [])"
| "py_truthy (JList xs) = (xs \<noteq> [])"
| "py_truthy (JDict kvs) = (kvs \<noteq> [])"

text \<open>\<^verbatim>\<open>x[k]\<close> with a string \<open>k\<close>: only a dictionary can be subscripted with a string.\<close>

fun py_getitem :: "json \<Rightarrow> string \<Rightarrow> error + json" where
  "py_getitem (JDict kvs) k = (case map_of kvs k of None \<Rightarrow> Inl KeyError | Some v \<Rightarrow> Inr v)"
| "py_getitem _ k = Inl TypeError"

text \<open>\<^verbatim>\<open>x.get(k, d)\<close>, \<^verbatim>\<open>x.values()\<close>: methods of dictionaries only.\<close>

fun py_get :: "json \<Rightarrow> string \<Rightarrow> json \<Rightarrow> error + json" where
  "py_get (JDict kvs) k d = Inr (case map_of kvs k of None \<Rightarrow> d | Some v \<Rightarrow> v)"
| "py_get _ k d = Inl AttributeError"

fun py_values :: "json \<Rightarrow> error + json list" where
  "py_values (JDict kvs) = Inr (map snd kvs)"
| "py_values _ = Inl AttributeError"

text \<open>\<^verbatim>\<open>for e in x\<close>: a list gives its elements, a dictionary its keys, a string its
  characters; nothing else is iterable.\<close>

fun py_iter :: "json \<Rightarrow> error + json list" where
  "py_iter (JList xs) = Inr xs"
| "py_iter (JDict kvs) = Inr (map (\<lambda>kv. JStr (fst kv)) kvs)"
| "py_iter (JStr s) = Inr (map (\<lambda>c. JStr [c]) s)"
| "py_iter _ = Inl TypeError"

text \<open>\<^verbatim>\<open>sub in s\<close> on strings: \<open>sub\<close> occurs in \<open>s\<close> as a contiguous block.\<close>

fun str_contains :: "string \<Rightarrow> string \<Rightarrow> bool" where
  "str_contains sub [] = (sub = [])"
| "str_contains sub (c # cs) = (take (length sub) (c # cs) = sub \<or> str_contains sub cs)"

text \<open>\<^verbatim>\<open>'k' in x\<close> with a string literal on the left: key of a dictionary, substring of a
  string, element of a list; a \<^verbatim>\<open>TypeError\<close> on anything else.\<close>

fun str_in :: "string \<Rightarrow> json \<Rightarrow> error + bool" where
  "str_in k (JDict kvs) = Inr (k \<in> fst ` set kvs)"
| "str_in k (JStr s) = Inr (str_contains k s)"
| "str_in k (JList xs) = Inr (JStr k \<in> set xs)"
| "str_in k _ = Inl TypeError"

text \<open>
  Dictionary and set keys. A list or a dictionary is unhashable (\<^verbatim>\<open>TypeError\<close>);
  \<^verbatim>\<open>True\<close> and \<^verbatim>\<open>1\<close> (and \<^verbatim>\<open>False\<close> and \<^verbatim>\<open>0\<close>) are the same key.
\<close>

datatype hkey = HNone | HInt int | HStr string

fun hash_key :: "json \<Rightarrow> error + hkey" where
  "hash_key JNull = Inr HNone"
| "hash_key (JBool b) = Inr (HInt (if b then 1 else 0))"
| "hash_key (JInt i) = Inr (HInt i)"
| "hash_key (JStr s) = Inr (HStr s)"
| "hash_key (JList xs) = Inl TypeError"
| "hash_key (JDict kvs) = Inl TypeError"

section \<open>Course Extractor: \<^verbatim>\<open>get_minor_courses\<close>\<close>

text \<open>
  \<^verbatim>\<open>
  def get_minor_courses(selected_minor, minor_data):
      courses = []
      if selected_minor in minor_data:
          minor_info = minor_data[selected_minor]
          for section_list in minor_info.values():
              for entry in section_list:
                  if isinstance(entry, dict) and 'Course' in entry:
                      courses.append(entry['Course'])
                  elif isinstance(entry, dict):
                      for value in entry.values():
                          if isinstance(value, list):
                              for item in value:
                                  if isinstance(item, dict) and 'Course' in item:
                                      courses.append(item['Course'])
      return courses
  \<close>
  The minor catalog is a dictionary (\<^verbatim>\<open>main\<close> calls \<^verbatim>\<open>.keys()\<close> on it).
\<close>

fun item_courses :: "json \<Rightarrow> json list" where
  "item_courses (JDict kvs) = (case map_of kvs ''Course'' of Some c \<Rightarrow> [c] | None \<Rightarrow> [])"
| "item_courses _ = []"

fun value_courses :: "json \<Rightarrow> json list" where
  "value_courses (JList items) = concat (map item_courses items)"
| "value_courses _ = []"

fun entry_courses :: "json \<Rightarrow> json list" where
  "entry_courses (JDict kvs) =
     (case map_of kvs ''Course'' of
        Some c \<Rightarrow> [c]
      | None \<Rightarrow> concat (map value_courses (map snd kvs)))"
| "entry_courses _ = []"

definition section_courses :: "json \<Rightarrow> error + json list" where
  "section_courses section_list =
     bindE (py_iter section_list) (\<lambda>entries. Inr (concat (map entry_courses entries)))"

definition get_minor_courses :: "string \<Rightarrow> (string \<times> json) list \<Rightarrow> error + json list" where
  "get_minor_courses selected_minor minor_data =
     (case map_of minor_data selected_minor of
        None \<Rightarrow> Inr []
      | Some minor_info \<Rightarrow>
          bindE (py_values minor_info) (\<lambda>sections.
          bindE (mapE section_courses sections) (\<lambda>css. Inr (concat css))))"

section \<open>Fulfillment Resolver: \<^verbatim>\<open>map_gened_requirements\<close>\<close>

text \<open>
  The bundle that \<^verbatim>\<open>load_data\<close> returns holds the five parsed catalogs. The minor
  and major catalogs are dictionaries (\<^verbatim>\<open>main\<close> calls \<^verbatim>\<open>.keys()\<close> on both), and so is
  the interdisciplinary catalog (the source: "ID_data is a dictionary, checking keys").
\<close>

record data_bundle =
  minor_data :: "(string \<times> json) list"
  gened_data :: json
  major_data :: "(string \<times> json) list"
  lib_data :: json
  ID_data :: "(string \<times> json) list"

subsection \<open>The pattern \<^verbatim>\<open>\d+ID$\<close>\<close>

text \<open>
  \<^verbatim>\<open>re.search(r'\d+ID$', course)\<close> tries every start position. At one position,
  \<^verbatim>\<open>\d+\<close> takes a non-empty run of decimal digits; the run has to be the longest one,
  since the next character must be \<open>I\<close>. Python's \<^verbatim>\<open>$\<close> matches at the end of the
  string and also just before a newline that is the last character.
\<close>

definition is_digit :: "char \<Rightarrow> bool" where
  "is_digit c = (c \<in> set ''0123456789'')"

definition match_digits_ID_at :: "string \<Rightarrow> bool" where
  "match_digits_ID_at s =
     (let ds = takeWhile is_digit s; r = dropWhile is_digit s
      in ds \<noteq> [] \<and> (r = ''ID'' \<or> r = ''ID'' @ [CHR 0x0A]))"

fun re_search_digits_ID :: "string \<Rightarrow> bool" where
  "re_search_digits_ID [] = False"
| "re_search_digits_ID (c # cs) = (match_digits_ID_at (c # cs) \<or> re_search_digits_ID cs)"

subsection \<open>The lookups built before the loop (source lines 72 to 83)\<close>

text \<open>
  \<^verbatim>\<open>
  gened_fulfillment_map = {}
  for core_type in ['Required Core', 'Flexible Core']:
      for course_info in gened_data['gened'][core_type]:
          areas = course_info.get('Area(s)', [])
          gened_fulfillment_map[course_info['Course']] = areas
  major_core = set([c['Course'] for c in major_data[selected_major]['Core']])
  major_elective = set([c['Course'] for c in major_data[selected_major]['Electives']])
  adv_lib = set([c['Course'] for c in lib_data['Adv Lib Art']])
  lib_art = set([c['Course'] for c in lib_data['Lib Art']])
  \<close>
\<close>

definition gened_entry :: "json \<Rightarrow> error + (hkey \<times> json)" where
  "gened_entry course_info =
     bindE (py_get course_info ''Area(s)'' (JList [])) (\<lambda>areas.
     bindE (py_getitem course_info ''Course'') (\<lambda>c.
     bindE (hash_key c) (\<lambda>k. Inr (k, areas))))"

definition core_type_entries :: "json \<Rightarrow> string \<Rightarrow> error + (hkey \<times> json) list" where
  "core_type_entries gened core_type =
     bindE (py_getitem gened ''gened'') (\<lambda>g.
     bindE (py_getitem g core_type) (\<lambda>l.
     bindE (py_iter l) (mapE gened_entry)))"

definition merge_entries :: "(hkey \<times> 'a) list \<Rightarrow> (hkey \<rightharpoonup> 'a)" where
  "merge_entries es = fold (\<lambda>e m. m(fst e \<mapsto> snd e)) es Map.empty"

definition build_gened_map :: "json \<Rightarrow> error + (hkey \<rightharpoonup> json)" where
  "build_gened_map gened =
     bindE (core_type_entries gened ''Required Core'') (\<lambda>rs.
     bindE (core_type_entries gened ''Flexible Core'') (\<lambda>fs.
     Inr (merge_entries (rs @ fs))))"

definition course_set :: "json \<Rightarrow> error + hkey set" where
  "course_set l =
     bindE (py_iter l) (\<lambda>cs.
     bindE (mapE (\<lambda>c. py_getitem c ''Course'') cs) (\<lambda>vs.
     bindE (mapE hash_key vs) (\<lambda>ks. Inr (set ks))))"

definition major_section :: "(string \<times> json) list \<Rightarrow> string \<Rightarrow> string \<Rightarrow> error + hkey set" where
  "major_section major selected_major sec =
     (case map_of major selected_major of
        None \<Rightarrow> Inl KeyError
      | Some m \<Rightarrow> bindE (py_getitem m sec) course_set)"

definition lib_section :: "json \<Rightarrow> string \<Rightarrow> error + hkey set" where
  "lib_section lib sec = bindE (py_getitem lib sec) course_set"

record 'a lookups =
  gened_fulfillment_map :: "hkey \<rightharpoonup> 'a"
  major_core :: "hkey set"
  major_elective :: "hkey set"
  adv_lib :: "hkey set"
  lib_art :: "hkey set"

definition build_lookups :: "string \<Rightarrow> data_bundle \<Rightarrow> error + json lookups" where
  "build_lookups selected_major b =
     bindE (build_gened_map (gened_data b)) (\<lambda>gm.
     bindE (major_section (major_data b) selected_major ''Core'') (\<lambda>mc.
     bindE (major_section (major_data b) selected_major ''Electives'') (\<lambda>me.
     bindE (lib_section (lib_data b) ''Adv Lib Art'') (\<lambda>al.
     bindE (lib_section (lib_data b) ''Lib Art'') (\<lambda>la.
     Inr \<lparr>gened_fulfillment_map = gm, major_core = mc, major_elective = me,
          adv_lib = al, lib_art = la\<rparr>)))))"

subsection \<open>The loop over the courses (source lines 87 to 113)\<close>

text \<open>
  \<^verbatim>\<open>
  for course in courses:
      fulfilled_geneds = gened_fulfillment_map.get(course, [])
      if not isinstance(fulfilled_geneds, list):
          fulfilled_geneds = [fulfilled_geneds] if fulfilled_geneds else []
      current_fulfilled = list(fulfilled_geneds)
      if course in major_core: current_fulfilled.append('Major_Core')
      if course in major_elective: current_fulfilled.append('Major_Elec')
      if course in lib_art: current_fulfilled.append('Lib Art')
      if course in adv_lib:
          current_fulfilled.append('Lib Art')
          current_fulfilled.append('Adv Lib Art')
      if course in ID_data or re.search(r'\d+ID$', course):
          current_fulfilled.append('ID')
      course_gened_fulfillment_list.append({
          'Courses in Minor': course, 'Fulfilled Areas': current_fulfilled})
  \<close>
\<close>

record fulfillment =
  Courses_in_Minor :: json
  Fulfilled_Areas :: "json list"

definition seed_areas :: "json \<Rightarrow> json list" where
  "seed_areas fulfilled_geneds =
     (case fulfilled_geneds of
        JList xs \<Rightarrow> xs
      | v \<Rightarrow> if py_truthy v then [v] else [])"

text \<open>\<^verbatim>\<open>course in ID_data or re.search(...)\<close>: the search runs only when the course is
  no key of the catalog, and raises on a course that is not a string.\<close>

definition is_ID :: "(string \<times> json) list \<Rightarrow> json \<Rightarrow> error + bool" where
  "is_ID ID course =
     (if (case course of JStr s \<Rightarrow> s \<in> fst ` set ID | _ \<Rightarrow> False) then Inr True
      else (case course of JStr s \<Rightarrow> Inr (re_search_digits_ID s) | _ \<Rightarrow> Inl TypeError))"

text \<open>The tags appended by the four membership tests, and the value of
  \<^verbatim>\<open>current_fulfilled\<close> when the loop body reaches the ID check.\<close>

definition major_lib_tags :: "'a lookups \<Rightarrow> hkey \<Rightarrow> json list" where
  "major_lib_tags lk k =
     (if k \<in> major_core lk then [JStr ''Major_Core''] else [])
     @ (if k \<in> major_elective lk then [JStr ''Major_Elec''] else [])
     @ (if k \<in> lib_art lk then [JStr ''Lib Art''] else [])
     @ (if k \<in> adv_lib lk then [JStr ''Lib Art'', JStr ''Adv Lib Art''] else [])"

definition fulfilled_before_ID :: "json lookups \<Rightarrow> hkey \<Rightarrow> json list" where
  "fulfilled_before_ID lk k =
     seed_areas (case gened_fulfillment_map lk k of None \<Rightarrow> JList [] | Some a \<Rightarrow> a)
     @ major_lib_tags lk k"

definition resolve_course ::
    "json lookups \<Rightarrow> (string \<times> json) list \<Rightarrow> json \<Rightarrow> error + fulfillment" where
  "resolve_course lk ID course =
     bindE (hash_key course) (\<lambda>k.
     bindE (is_ID ID course) (\<lambda>idc.
     Inr \<lparr>Courses_in_Minor = course,
          Fulfilled_Areas = fulfilled_before_ID lk k @ (if idc then [JStr ''ID''] else [])\<rparr>))"

definition map_gened_requirements ::
    "json list \<Rightarrow> string \<Rightarrow> data_bundle \<Rightarrow> error + fulfillment list" where
  "map_gened_requirements courses selected_major b =
     bindE (build_lookups selected_major b) (\<lambda>lk.
     mapE (resolve_course lk (ID_data b)) courses)"

section \<open>Curriculum Materializer: \<^verbatim>\<open>process_curriculum_json\<close>\<close>

subsection \<open>\<^verbatim>\<open>str(x)\<close> and \<^verbatim>\<open>x == y\<close> on parsed documents\<close>

definition digit_char :: "nat \<Rightarrow> char" where
  "digit_char n = ''0123456789abcdef'' ! (n mod 16)"

function show_nat :: "nat \<Rightarrow> string" where
  "show_nat n = (if n < 10 then [digit_char n] else show_nat (n div 10) @ [digit_char (n mod 10)])"
  by pat_completeness auto
termination
  by (relation "measure id") auto

declare show_nat.simps [simp del]

definition show_int :: "int \<Rightarrow> string" where
  "show_int i = (if i < 0 then CHR ''-'' # show_nat (nat (- i)) else show_nat (nat i))"

text \<open>
  \<^verbatim>\<open>repr\<close> of a string: double quotes when the string holds a single quote and no
  double quote, single quotes otherwise; the quote and the backslash are escaped, tab,
  newline and carriage return are written \<^verbatim>\<open>\t \n \r\<close>, and a character that is not
  printable is written \<^verbatim>\<open>\xNN\<close>.
\<close>

definition printable :: "char \<Rightarrow> bool" where
  "printable c = (let n = (of_char c :: nat) in (32 \<le> n \<and> n < 127) \<or> (161 \<le> n \<and> n \<noteq> 173))"

definition repr_char :: "char \<Rightarrow> char \<Rightarrow> string" where
  "repr_char q c =
     (if c = q \<or> c = CHR 0x5C then [CHR 0x5C, c]
      else if c = CHR 0x09 then [CHR 0x5C, CHR ''t'']
      else if c = CHR 0x0A then [CHR 0x5C, CHR ''n'']
      else if c = CHR 0x0D then [CHR 0x5C, CHR ''r'']
      else if printable c then [c]
      else [CHR 0x5C, CHR ''x'', digit_char (of_char c div 16), digit_char (of_char c mod 16)])"

definition repr_str :: "string \<Rightarrow> string" where
  "repr_str s =
     (let q = (if CHR 0x27 \<in> set s \<and> CHR 0x22 \<notin> set s then CHR 0x22 else CHR 0x27)
      in q # concat (map (repr_char q) s) @ [q])"

fun join :: "string \<Rightarrow> string list \<Rightarrow> string" where
  "join sep [] = []"
| "join sep [x] = x"
| "join sep (x # y # ys) = x @ sep @ join sep (y # ys)"

fun py_repr :: "json \<Rightarrow> string" where
  "py_repr JNull = ''None''"
| "py_repr (JBool b) = (if b then ''True'' else ''False'')"
| "py_repr (JInt i) = show_int i"
| "py_repr (JStr s) = repr_str s"
| "py_repr (JList xs) = ''['' @ join '', '' (map py_repr xs) @ '']''"
| "py_repr (JDict kvs) =
     ''{'' @ join '', '' (map (\<lambda>kv. repr_str (fst kv) @ '': '' @ py_repr (snd kv)) kvs) @ ''}''"

fun py_str :: "json \<Rightarrow> string" where
  "py_str (JStr s) = s"
| "py_str v = py_repr v"

text \<open>
  \<^verbatim>\<open>x == y\<close>: \<^verbatim>\<open>True\<close> equals \<^verbatim>\<open>1\<close> and \<^verbatim>\<open>False\<close> equals \<^verbatim>\<open>0\<close>; lists are compared
  element by element, dictionaries key by key whatever their order.
\<close>

fun py_eq :: "json \<Rightarrow> json \<Rightarrow> bool" where
  "py_eq JNull JNull = True"
| "py_eq (JBool a) (JBool b) = (a = b)"
| "py_eq (JBool a) (JInt j) = ((if a then 1 else 0) = j)"
| "py_eq (JInt i) (JBool b) = (i = (if b then 1 else 0))"
| "py_eq (JInt i) (JInt j) = (i = j)"
| "py_eq (JStr s) (JStr t) = (s = t)"
| "py_eq (JList xs) (JList ys) = list_all2 py_eq xs ys"
| "py_eq (JDict a) (JDict b) =
     (length a = length b \<and>
      list_all (\<lambda>kv. case map_of b (fst kv) of None \<Rightarrow> False | Some w \<Rightarrow> py_eq (snd kv) w) a)"
| "py_eq _ _ = False"

subsection \<open>Credit resolution (source lines 125 to 135)\<close>

text \<open>
  \<^verbatim>\<open>
  def format_credit(min_credit: int, max_credit: int) -> str:
      return str(max_credit) if min_credit == max_credit else f"{min_credit}-{max_credit}"

  def get_credit_info(data_item: Dict[str, Any]) -> Dict[str, int]:
      info = data_item.get('Credit') or data_item.get('credit')
      if info: return info
      for key, value in data_item.items():
          if isinstance(key, str) and 'credit' in key.lower():
              if isinstance(value, dict) and 'Min' in value and 'Max' in value:
                  return value
      return {'Min': 3, 'Max': 3}
  \<close>
\<close>

definition format_credit :: "json \<Rightarrow> json \<Rightarrow> string" where
  "format_credit min_credit max_credit =
     (if py_eq min_credit max_credit then py_str max_credit
      else py_str min_credit @ ''-'' @ py_str max_credit)"

definition lower_char :: "char \<Rightarrow> char" where
  "lower_char c =
     (let n = (of_char c :: nat)
      in if (65 \<le> n \<and> n \<le> 90) \<or> (192 \<le> n \<and> n \<le> 222 \<and> n \<noteq> 215) then char_of (n + 32) else c)"

definition py_lower :: "string \<Rightarrow> string" where
  "py_lower s = map lower_char s"

definition is_min_max :: "json \<Rightarrow> bool" where
  "is_min_max v =
     (case v of JDict kvs \<Rightarrow> ''Min'' \<in> fst ` set kvs \<and> ''Max'' \<in> fst ` set kvs | _ \<Rightarrow> False)"

definition dict_get_none :: "(string \<times> json) list \<Rightarrow> string \<Rightarrow> json" where
  "dict_get_none d k = (case map_of d k of None \<Rightarrow> JNull | Some v \<Rightarrow> v)"

definition explicit_credit :: "(string \<times> json) list \<Rightarrow> json" where
  "explicit_credit d =
     (if py_truthy (dict_get_none d ''Credit'') then dict_get_none d ''Credit''
      else dict_get_none d ''credit'')"

fun scan_credit :: "(string \<times> json) list \<Rightarrow> json option" where
  "scan_credit [] = None"
| "scan_credit (kv # rest) =
     (if str_contains ''credit'' (py_lower (fst kv)) \<and> is_min_max (snd kv) then Some (snd kv)
      else scan_credit rest)"

definition get_credit_info :: "(string \<times> json) list \<Rightarrow> json" where
  "get_credit_info data_item =
     (let info = explicit_credit data_item
      in if py_truthy info then info
         else (case scan_credit data_item of
                 Some v \<Rightarrow> v
               | None \<Rightarrow> JDict [(''Min'', JInt 3), (''Max'', JInt 3)]))"

text \<open>\<^verbatim>\<open>format_credit(credit_info['Min'], credit_info['Max'])\<close> at each call site.\<close>

definition credit_string :: "(string \<times> json) list \<Rightarrow> error + string" where
  "credit_string data_item =
     (let credit_info = get_credit_info data_item
      in bindE (py_getitem credit_info ''Min'') (\<lambda>mn.
         bindE (py_getitem credit_info ''Max'') (\<lambda>mx.
         Inr (format_credit mn mx))))"

subsection \<open>Traversal of the Core and Electives sections (source lines 122 and 137 to 190)\<close>

text \<open>
  \<^verbatim>\<open>
  fulfillment_map = {item['Courses in Minor']: item['Fulfilled Areas']
                     for item in fulfillment_list}
  core_section = data.get("Core", [])
  for item in core_section:
      if "Course" in item:
          course = item['Course']
          credit_info = get_credit_info(item)
          processed_list.append({
              'Sub_Section': 'A. Mandatory Core Courses',
              'Courses in Minor': course,
              'Name': item.get('Title', 'Mandatory'),
              'Credit': format_credit(credit_info['Min'], credit_info['Max']),
              'Fulfilled Areas': fulfillment_map.get(course, [])})
      elif "group" in item:
          sub_section_name = f'B. Conditional Core: {item["group"]}'
          for course_info in item['courses']:
              course = course_info['Course']
              credit_info = get_credit_info(course_info)
              processed_list.append({
                  'Sub_Section': sub_section_name,
                  'Name': course_info.get('Title', ''),
                  'Courses in Minor': course,
                  'Credit': format_credit(credit_info['Min'], credit_info['Max']),
                  'Fulfilled Areas': fulfillment_map.get(course, [])})
  \<close>
  The Electives loop is the same loop over \<^verbatim>\<open>data.get("Electives", [])\<close> with the labels
  \<^verbatim>\<open>"A. General Electives List"\<close> and \<^verbatim>\<open>'B. Conditional Elective: '\<close> and the default
  title \<^verbatim>\<open>''\<close>.
\<close>

record processed =
  p_Sub_Section :: string
  p_Courses_in_Minor :: json
  p_Name :: json
  p_Credit :: string
  p_Fulfilled_Areas :: "json list"

definition build_fulfillment_map :: "fulfillment list \<Rightarrow> error + (hkey \<rightharpoonup> json list)" where
  "build_fulfillment_map fulfillment_list =
     bindE (mapE (\<lambda>item. bindE (hash_key (Courses_in_Minor item))
                           (\<lambda>k. Inr (k, Fulfilled_Areas item))) fulfillment_list)
       (\<lambda>es. Inr (merge_entries es))"

text \<open>The receiver of \<^verbatim>\<open>.get\<close> and \<^verbatim>\<open>.items()\<close> has to be a dictionary.\<close>

fun as_dict :: "json \<Rightarrow> error + (string \<times> json) list" where
  "as_dict (JDict kvs) = Inr kvs"
| "as_dict _ = Inl AttributeError"

definition fulfilled_areas_of :: "(hkey \<rightharpoonup> json list) \<Rightarrow> json \<Rightarrow> error + json list" where
  "fulfilled_areas_of fulfillment_map course =
     bindE (hash_key course) (\<lambda>k.
     Inr (case fulfillment_map k of None \<Rightarrow> [] | Some a \<Rightarrow> a))"

text \<open>One appended entry: the course, then \<^verbatim>\<open>get_credit_info\<close> and the title on the
  entry's dictionary, then the credit string, then the areas.\<close>

definition course_entry ::
    "(hkey \<rightharpoonup> json list) \<Rightarrow> string \<Rightarrow> json \<Rightarrow> json \<Rightarrow> error + processed" where
  "course_entry fulfillment_map sub_section default_title item =
     bindE (py_getitem item ''Course'') (\<lambda>course.
     bindE (as_dict item) (\<lambda>d.
     bindE (credit_string d) (\<lambda>credit.
     bindE (fulfilled_areas_of fulfillment_map course) (\<lambda>areas.
     Inr \<lparr>p_Sub_Section = sub_section,
          p_Courses_in_Minor = course,
          p_Name = (case map_of d ''Title'' of None \<Rightarrow> default_title | Some t \<Rightarrow> t),
          p_Credit = credit,
          p_Fulfilled_Areas = areas\<rparr>))))"

definition section_item ::
    "(hkey \<rightharpoonup> json list) \<Rightarrow> string \<Rightarrow> json \<Rightarrow> string \<Rightarrow> json \<Rightarrow> error + processed list" where
  "section_item fulfillment_map direct_label default_title group_label item =
     bindE (str_in ''Course'' item) (\<lambda>has_course.
     if has_course then
       bindE (course_entry fulfillment_map direct_label default_title item) (\<lambda>r. Inr [r])
     else
       bindE (str_in ''group'' item) (\<lambda>has_group.
       if has_group then
         bindE (py_getitem item ''group'') (\<lambda>g.
         bindE (py_getitem item ''courses'') (\<lambda>cs.
         bindE (py_iter cs) (\<lambda>infos.
         mapE (course_entry fulfillment_map (group_label @ py_str g) (JStr [])) infos)))
       else Inr []))"

definition section_rows ::
    "(hkey \<rightharpoonup> json list) \<Rightarrow> string \<Rightarrow> json \<Rightarrow> string \<Rightarrow> json \<Rightarrow> error + processed list" where
  "section_rows fulfillment_map direct_label default_title group_label sec =
     bindE (py_iter sec) (\<lambda>items.
     bindE (mapE (section_item fulfillment_map direct_label default_title group_label) items)
       (\<lambda>rss. Inr (concat rss)))"

definition processed_list ::
    "json \<Rightarrow> (hkey \<rightharpoonup> json list) \<Rightarrow> error + processed list" where
  "processed_list data fulfillment_map =
     bindE (py_get data ''Core'' (JList [])) (\<lambda>core_section.
     bindE (section_rows fulfillment_map ''A. Mandatory Core Courses'' (JStr ''Mandatory'')
              ''B. Conditional Core: '' core_section) (\<lambda>core_rows.
     bindE (py_get data ''Electives'' (JList [])) (\<lambda>elective_section.
     bindE (section_rows fulfillment_map ''A. General Electives List'' (JStr [])
              ''B. Conditional Elective: '' elective_section) (\<lambda>elective_rows.
     Inr (core_rows @ elective_rows)))))"

subsection \<open>The table (source lines 192 to 212)\<close>

text \<open>
  \<^verbatim>\<open>
  for course_info in processed_list:
      course_dict = {'Name': ..., 'Sub_Section': ..., 'Courses in Minor': ..., 'Credit': ...}
      fulfilled_areas = course_info['Fulfilled Areas']
      for gened_abbr in gened_areas:
          course_dict[gened_abbr] = 'X' if gened_abbr in fulfilled_areas else ''
      course_fulfillment_list_for_df.append(course_dict)
  df = pd.DataFrame(course_fulfillment_list_for_df).fillna('')
  if not df.empty:
      df = df.set_index(['Sub_Section','Courses in Minor', 'Name'])
      df = df.reindex(columns=['Credit'] + gened_areas, fill_value='')
  return df
  \<close>
  A row of the table is one \<^verbatim>\<open>course_dict\<close>: the three index cells, the credit cell and
  one flag cell per requirement area, in the order of \<^verbatim>\<open>gened_areas\<close> (area names are
  distinct and differ from the four fixed column names). The data frame keeps one row per
  dictionary, in list order; it is empty exactly when there is no row. A row keeps the
  cells of its dictionary: what \<^verbatim>\<open>pandas\<close> does to a cell that is not a string
  (\<^verbatim>\<open>fillna('')\<close> on a null title or course) is outside this model.
\<close>

record row =
  Name :: json
  Sub_Section :: string
  Course :: json
  Credit :: string
  Flags :: "(string \<times> string) list"

definition course_dict :: "string list \<Rightarrow> processed \<Rightarrow> row" where
  "course_dict gened_areas course_info =
     \<lparr>Name = p_Name course_info,
      Sub_Section = p_Sub_Section course_info,
      Course = p_Courses_in_Minor course_info,
      Credit = p_Credit course_info,
      Flags = map (\<lambda>gened_abbr.
                (gened_abbr,
                 if JStr gened_abbr \<in> set (p_Fulfilled_Areas course_info) then ''X'' else []))
              gened_areas\<rparr>"

definition process_curriculum_json ::
    "string \<Rightarrow> json \<Rightarrow> string list \<Rightarrow> fulfillment list \<Rightarrow> error + row list" where
  "process_curriculum_json curriculum_name curriculum_data gened_areas fulfillment_list =
     bindE (build_fulfillment_map fulfillment_list) (\<lambda>fulfillment_map.
     bindE (processed_list curriculum_data fulfillment_map) (\<lambda>ps.
     Inr (map (course_dict gened_areas) ps)))"

section \<open>The analysis of \<^verbatim>\<open>main\<close> (source lines 252 to 276)\<close>

text \<open>
  \<^verbatim>\<open>
  courses = get_minor_courses(selected_minor, data_bundle['minor_data'])
  if not courses:
      st.warning(f"No course data found for minor: {selected_minor}")
      return
  course_gened_fulfillment_list = map_gened_requirements(courses, selected_major, data_bundle)
  gened_areas = ['EC', 'MQR', 'LPS', 'WCGI', 'USED', 'IS', 'CE', 'SW',
                 'Lib Art', 'Adv Lib Art', 'ID', 'Major_Core', 'Major_Elec']
  final_df = process_curriculum_json(selected_minor,
      data_bundle['minor_data'][selected_minor], gened_areas, course_gened_fulfillment_list)
  if final_df.empty:
      st.info("The selected minor curriculum data structure could not be processed ...")
  else:
      ... st.write(styled_df.to_html(), unsafe_allow_html=True)
  \<close>
  The outcome is what the user is shown: the warning, the notice, or the table.
\<close>

datatype outcome = Warning string | Info string | Rendered "row list"

definition gened_areas :: "string list" where
  "gened_areas = [''EC'', ''MQR'', ''LPS'', ''WCGI'', ''USED'', ''IS'', ''CE'', ''SW'',
                  ''Lib Art'', ''Adv Lib Art'', ''ID'', ''Major_Core'', ''Major_Elec'']"

definition analyze :: "string \<Rightarrow> string \<Rightarrow> data_bundle \<Rightarrow> error + outcome" where
  "analyze selected_major selected_minor b =
     bindE (get_minor_courses selected_minor (minor_data b)) (\<lambda>courses.
     if courses = [] then Inr (Warning (''No course data found for minor: '' @ selected_minor))
     else
       bindE (map_gened_requirements courses selected_major b) (\<lambda>fl.
       bindE (case map_of (minor_data b) selected_minor of
                None \<Rightarrow> Inl KeyError | Some t \<Rightarrow> Inr t) (\<lambda>tree.
       bindE (process_curriculum_json selected_minor tree gened_areas fl) (\<lambda>final_df.
       if final_df = [] then
         Inr (Info (''The selected minor curriculum data structure could not be ''
                    @ ''processed into the table format.''))
       else Inr (Rendered final_df)))))"

section \<open>The resolver loop with list objects in a store\<close>

text \<open>
  In Python a list is an object: \<^verbatim>\<open>gened_fulfillment_map\<close> holds references to the area
  lists of the gen-ed catalog, and \<^verbatim>\<open>append\<close> changes the object it is called on. To
  say what the loop does to the catalog, this section runs the same loop body on a store
  of list objects. Only lists are ever appended to, so only they get an address; the
  elements of a list are values.
\<close>

type_synonym ref = nat

record store =
  heap :: "ref \<rightharpoonup> json list"
  next_ref :: ref

text \<open>What is kept under \<^verbatim>\<open>'Area(s)'\<close>: a reference to a list object, or a value that is
  not a list.\<close>

datatype aval = ARef ref | AVal json

definition new_list :: "json list \<Rightarrow> store \<Rightarrow> ref \<times> store" where
  "new_list xs s =
     (next_ref s, s\<lparr>heap := (heap s)(next_ref s \<mapsto> xs), next_ref := Suc (next_ref s)\<rparr>)"

definition list_append :: "ref \<Rightarrow> json \<Rightarrow> store \<Rightarrow> store" where
  "list_append r v s =
     (case heap s r of None \<Rightarrow> s | Some xs \<Rightarrow> s\<lparr>heap := (heap s)(r \<mapsto> xs @ [v])\<rparr>)"

definition list_contents :: "store \<Rightarrow> ref \<Rightarrow> json list" where
  "list_contents s r = (case heap s r of None \<Rightarrow> [] | Some xs \<Rightarrow> xs)"

text \<open>The parsed gen-ed catalog in memory: every list under \<^verbatim>\<open>'Area(s)'\<close> (and the
  \<^verbatim>\<open>[]\<close> that \<^verbatim>\<open>.get('Area(s)', [])\<close> makes for an entry without the field) is an object
  of its own.\<close>

fun store_entries :: "(hkey \<times> json) list \<Rightarrow> store \<Rightarrow> (hkey \<times> aval) list \<times> store" where
  "store_entries [] s = ([], s)"
| "store_entries ((k, v) # es) s =
     (case v of
        JList xs \<Rightarrow>
          (let (r, s1) = new_list xs s; (res, s2) = store_entries es s1
           in ((k, ARef r) # res, s2))
      | _ \<Rightarrow> (let (res, s2) = store_entries es s in ((k, AVal v) # res, s2)))"

text \<open>
  The loop body, statement by statement; \<open>cur\<close> is the object that
  \<^verbatim>\<open>current_fulfilled = list(fulfilled_geneds)\<close> creates.
\<close>

definition append_if :: "bool \<Rightarrow> ref \<Rightarrow> json \<Rightarrow> store \<Rightarrow> store" where
  "append_if c r v s = (if c then list_append r v s else s)"

definition resolve_course_st ::
    "aval lookups \<Rightarrow> (string \<times> json) list \<Rightarrow> json \<Rightarrow> store \<Rightarrow> (error + json \<times> ref) \<times> store" where
  "resolve_course_st lk ID course s0 =
     (let (dflt, s1) = new_list [] s0
      in case hash_key course of
           Inl e \<Rightarrow> (Inl e, s1)
         | Inr k \<Rightarrow>
            (let fulfilled_geneds =
                   (case gened_fulfillment_map lk k of None \<Rightarrow> ARef dflt | Some a \<Rightarrow> a);
                 (fg, s2) =
                   (case fulfilled_geneds of
                      ARef r \<Rightarrow> (r, s1)
                    | AVal v \<Rightarrow> new_list (if py_truthy v then [v] else []) s1);
                 (cur, s3) = new_list (list_contents s2 fg) s2;
                 s4 = append_if (k \<in> major_core lk) cur (JStr ''Major_Core'') s3;
                 s5 = append_if (k \<in> major_elective lk) cur (JStr ''Major_Elec'') s4;
                 s6 = append_if (k \<in> lib_art lk) cur (JStr ''Lib Art'') s5;
                 s7 = append_if (k \<in> adv_lib lk) cur (JStr ''Lib Art'') s6;
                 s8 = append_if (k \<in> adv_lib lk) cur (JStr ''Adv Lib Art'') s7
             in case is_ID ID course of
                  Inl e \<Rightarrow> (Inl e, s8)
                | Inr idc \<Rightarrow> (Inr (course, cur), append_if idc cur (JStr ''ID'') s8)))"

fun resolve_all_st ::
    "aval lookups \<Rightarrow> (string \<times> json) list \<Rightarrow> json list \<Rightarrow> store
      \<Rightarrow> (error + (json \<times> ref) list) \<times> store" where
  "resolve_all_st lk ID [] s = (Inr [], s)"
| "resolve_all_st lk ID (course # courses) s =
     (case resolve_course_st lk ID course s of
        (Inl e, s1) \<Rightarrow> (Inl e, s1)
      | (Inr x, s1) \<Rightarrow>
          (case resolve_all_st lk ID courses s1 of
             (Inl e, s2) \<Rightarrow> (Inl e, s2)
           | (Inr xs, s2) \<Rightarrow> (Inr (x # xs), s2)))"

section \<open>Notions of the specification\<close>

text \<open>
  The specification's wording of the naming convention, to be compared with the pattern of
  the source: the identifier "ends in one-or-more digits immediately followed by ID".
\<close>

definition ends_in_digits_ID :: "string \<Rightarrow> bool" where
  "ends_in_digits_ID s = (\<exists>p ds. s = p @ ds @ ''ID'' \<and> ds \<noteq> [] \<and> (\<forall>d\<in>set ds. is_digit d))"

section \<open>Example catalogs\<close>

text \<open>
  The minor catalog \<^verbatim>\<open>{"M":{"Core":[{"Course":"X1","Title":"T1"}]}}\<close> with catalogs of the
  shape the resolver reads: gen-ed \<^verbatim>\<open>{"gened":{"Required Core":[],"Flexible Core":[]}}\<close>,
  major \<^verbatim>\<open>{"MAJ":{"Core":[{"Course":"X1"}],"Electives":[]}}\<close>, liberal arts
  \<^verbatim>\<open>{"Lib Art":[],"Adv Lib Art":[]}\<close>, interdisciplinary \<^verbatim>\<open>{}\<close>.
\<close>

definition minor_M :: "(string \<times> json) list" where
  "minor_M = [(''M'', JDict [(''Core'', JList [JDict [(''Course'', JStr ''X1''),
                                                    (''Title'', JStr ''T1'')]])])]"

definition gened_empty :: json where
  "gened_empty = JDict [(''gened'', JDict [(''Required Core'', JList []),
                                           (''Flexible Core'', JList [])])]"

definition lib_empty :: json where
  "lib_empty = JDict [(''Lib Art'', JList []), (''Adv Lib Art'', JList [])]"

definition shaped_bundle :: data_bundle where
  "shaped_bundle =
     \<lparr>minor_data = minor_M,
      gened_data = gened_empty,
      major_data = [(''MAJ'', JDict [(''Core'', JList [JDict [(''Course'', JStr ''X1'')]]),
                                    (''Electives'', JList [])])],
      lib_data = lib_empty,
      ID_data = []\<rparr>"

definition shaped_lookups :: "json lookups" where
  "shaped_lookups =
     \<lparr>gened_fulfillment_map = Map.empty, major_core = {HStr ''X1''}, major_elective = {},
      adv_lib = {}, lib_art = {}\<rparr>"

text \<open>
  The inputs as the specification's end-to-end example writes them: the major's Core is a
  list of identifier strings, and the gen-ed, liberal-arts and interdisciplinary catalogs
  are empty documents. The second bundle keeps the major as written and gives the two
  empty catalogs the keys the resolver reads.
\<close>

definition major_of_strings :: "(string \<times> json) list" where
  "major_of_strings = [(''MAJ'', JDict [(''Core'', JList [JStr ''X1'']),
                                       (''Electives'', JList [])])]"

definition spec_bundle :: data_bundle where
  "spec_bundle =
     \<lparr>minor_data = minor_M, gened_data = JDict [], major_data = major_of_strings,
      lib_data = JDict [], ID_data = []\<rparr>"

definition spec_bundle_keyed :: data_bundle where
  "spec_bundle_keyed =
     \<lparr>minor_data = minor_M, gened_data = gened_empty, major_data = major_of_strings,
      lib_data = lib_empty, ID_data = []\<rparr>"

text \<open>The one row of the example: every flag blank except "Major_Core".\<close>

definition row_X1 :: row where
  "row_X1 =
     \<lparr>Name = JStr ''T1'', Sub_Section = ''A. Mandatory Core Courses'', Course = JStr ''X1'',
      Credit = ''3'',
      Flags = [(''EC'', []), (''MQR'', []), (''LPS'', []), (''WCGI'', []), (''USED'', []),
               (''IS'', []), (''CE'', []), (''SW'', []), (''Lib Art'', []),
               (''Adv Lib Art'', []), (''ID'', []), (''Major_Core'', ''X''),
               (''Major_Elec'', [])]\<rparr>"

text \<open>A course entry whose credit is written as a plain number,
  \<^verbatim>\<open>{"Course":"X1","Credit":3}\<close>, one whose credit lacks its "Max",
  \<^verbatim>\<open>{"Course":"X1","Credit":{"Min":3}}\<close>, and a minor tree holding the first.\<close>

definition entry_credit_number :: "(string \<times> json) list" where
  "entry_credit_number = [(''Course'', JStr ''X1''), (''Credit'', JInt 3)]"

definition entry_credit_no_max :: "(string \<times> json) list" where
  "entry_credit_no_max = [(''Course'', JStr ''X1''), (''Credit'', JDict [(''Min'', JInt 3)])]"

definition tree_credit_number :: json where
  "tree_credit_number = JDict [(''Core'', JList [JDict entry_credit_number])]"

text \<open>A gen-ed catalog whose entries hold a single area value instead of a list: "EC" for
  the course G1 of the Required Core, the empty string for the course G2 of the Flexible
  Core; the other catalogs are those of the shaped bundle.\<close>

definition gened_single :: json where
  "gened_single =
     JDict [(''gened'', JDict
       [(''Required Core'', JList [JDict [(''Course'', JStr ''G1''), (''Area(s)'', JStr ''EC'')]]),
        (''Flexible Core'', JList [JDict [(''Course'', JStr ''G2''), (''Area(s)'', JStr [])]])])]"

definition single_bundle :: data_bundle where
  "single_bundle = shaped_bundle\<lparr>gened_data := gened_single\<rparr>"

definition single_lookups :: "json lookups" where
  "single_lookups =
     \<lparr>gened_fulfillment_map = [HStr ''G1'' \<mapsto> JStr ''EC'', HStr ''G2'' \<mapsto> JStr []],
      major_core = {HStr ''X1''}, major_elective = {}, adv_lib = {}, lib_art = {}\<rparr>"

text \<open>
  Further examples: a liberal-arts catalog with the course A1 in "Adv Lib Art" only; a
  minor tree that lists X1 in Core and again, under another title, in Electives; a minor
  tree with X1 and a course Z9 that no catalog knows; the resolver's output for these
  courses and the rows they give.
\<close>

definition lib_adv :: json where
  "lib_adv = JDict [(''Lib Art'', JList []),
                    (''Adv Lib Art'', JList [JDict [(''Course'', JStr ''A1'')]])]"

definition lib_bundle :: data_bundle where
  "lib_bundle = shaped_bundle\<lparr>lib_data := lib_adv\<rparr>"

definition lib_lookups :: "json lookups" where
  "lib_lookups = shaped_lookups\<lparr>adv_lib := {HStr ''A1''}\<rparr>"

definition tree_two_sections :: json where
  "tree_two_sections =
     JDict [(''Core'', JList [JDict [(''Course'', JStr ''X1''), (''Title'', JStr ''T1'')]]),
            (''Electives'', JList [JDict [(''Course'', JStr ''X1''), (''Title'', JStr ''T2'')]])]"

definition row_X1_elective :: row where
  "row_X1_elective =
     row_X1\<lparr>Name := JStr ''T2'', Sub_Section := ''A. General Electives List''\<rparr>"

definition tree_X1_Z9 :: json where
  "tree_X1_Z9 =
     JDict [(''Core'', JList [JDict [(''Course'', JStr ''X1''), (''Title'', JStr ''T1'')],
                              JDict [(''Course'', JStr ''Z9''), (''Title'', JStr ''T9'')]])]"

definition row_Z9 :: row where
  "row_Z9 =
     \<lparr>Name = JStr ''T9'', Sub_Section = ''A. Mandatory Core Courses'', Course = JStr ''Z9'',
      Credit = ''3'', Flags = map (\<lambda>g. (g, [])) gened_areas\<rparr>"

definition fl_X1 :: "fulfillment list" where
  "fl_X1 = [\<lparr>Courses_in_Minor = JStr ''X1'', Fulfilled_Areas = [JStr ''Major_Core'']\<rparr>]"

definition fl_X1_Z9 :: "fulfillment list" where
  "fl_X1_Z9 = [\<lparr>Courses_in_Minor = JStr ''X1'', Fulfilled_Areas = [JStr ''Major_Core'']\<rparr>,
               \<lparr>Courses_in_Minor = JStr ''Z9'', Fulfilled_Areas = []\<rparr>]"

text \<open>
  The order of the rows in the specification's words, read on the tree alone: the items of
  a section in source order, a direct entry giving its course and a conditional group the
  courses of its entries in their order; the Core section before the Electives section.
\<close>

fun item_order :: "json \<Rightarrow> json list" where
  "item_order (JDict d) =
     (case map_of d ''Course'' of
        Some c \<Rightarrow> [c]
      | None \<Rightarrow>
         (case map_of d ''group'' of
            None \<Rightarrow> []
          | Some g \<Rightarrow> (case map_of d ''courses'' of None \<Rightarrow> [] | Some v \<Rightarrow> value_courses v)))"
| "item_order _ = []"

fun section_order :: "json \<Rightarrow> json list" where
  "section_order (JList items) = concat (map item_order items)"
| "section_order _ = []"

fun tree_order :: "json \<Rightarrow> json list" where
  "tree_order (JDict d) =
     (case map_of d ''Core'' of None \<Rightarrow> [] | Some sec \<Rightarrow> section_order sec)
     @ (case map_of d ''Electives'' of None \<Rightarrow> [] | Some sec \<Rightarrow> section_order sec)"
| "tree_order _ = []"

text \<open>
  The tree Core=[A,B], Electives=[C]; a tree whose Core lists a conditional group before a
  direct entry; a row with every flag blank; a resolver output for A, B and C.
\<close>

definition tree_ABC :: json where
  "tree_ABC =
     JDict [(''Core'', JList [JDict [(''Course'', JStr ''A'')], JDict [(''Course'', JStr ''B'')]]),
            (''Electives'', JList [JDict [(''Course'', JStr ''C'')]])]"

definition tree_group_first :: json where
  "tree_group_first =
     JDict [(''Core'', JList [JDict [(''group'', JStr ''G''),
                                     (''courses'', JList [JDict [(''Course'', JStr ''B'')]])],
                              JDict [(''Course'', JStr ''A'')]])]"

definition blank_row :: "string \<Rightarrow> string \<Rightarrow> string \<Rightarrow> row" where
  "blank_row sub course title =
     \<lparr>Name = JStr title, Sub_Section = sub, Course = JStr course, Credit = ''3'',
      Flags = map (\<lambda>g. (g, [])) gened_areas\<rparr>"

definition fl_ABC :: "fulfillment list" where
  "fl_ABC = [\<lparr>Courses_in_Minor = JStr ''A'', Fulfilled_Areas = [JStr ''EC'']\<rparr>,
             \<lparr>Courses_in_Minor = JStr ''B'', Fulfilled_Areas = []\<rparr>,
             \<lparr>Courses_in_Minor = JStr ''C'', Fulfilled_Areas = [JStr ''ID'', JStr ''SW'']\<rparr>]"

text \<open>
  Reading the store: the value behind a reference, the lookups and the results with every
  reference replaced by the contents of its list. A stored value is in order when its
  reference is allocated, or when it is a value that is not a list. A store extends
  another when it keeps every object of the other as it was.
\<close>

fun read_aval :: "store \<Rightarrow> aval \<Rightarrow> json" where
  "read_aval s (ARef r) = JList (list_contents s r)"
| "read_aval s (AVal v) = v"

definition read_lookups :: "store \<Rightarrow> aval lookups \<Rightarrow> json lookups" where
  "read_lookups s lk =
     \<lparr>gened_fulfillment_map = (\<lambda>k. map_option (read_aval s) (gened_fulfillment_map lk k)),
      major_core = major_core lk, major_elective = major_elective lk,
      adv_lib = adv_lib lk, lib_art = lib_art lk\<rparr>"

definition read_results :: "store \<Rightarrow> error + (json \<times> ref) list \<Rightarrow> error + fulfillment list" where
  "read_results s res =
     map_sum id (map (\<lambda>cr. \<lparr>Courses_in_Minor = fst cr,
                              Fulfilled_Areas = list_contents s (snd cr)\<rparr>)) res"

fun is_list :: "json \<Rightarrow> bool" where
  "is_list (JList xs) = True"
| "is_list _ = False"

fun aval_ok :: "store \<Rightarrow> aval \<Rightarrow> bool" where
  "aval_ok s (ARef r) = (r < next_ref s \<and> r \<in> dom (heap s))"
| "aval_ok s (AVal v) = (\<not> is_list v)"

definition extends :: "store \<Rightarrow> store \<Rightarrow> bool" where
  "extends s s' = (next_ref s \<le> next_ref s' \<and> (\<forall>r<next_ref s. heap s' r = heap s r))"

text \<open>
  A gen-ed catalog with the one entry G1 and its area list ["EC"], loaded into the empty
  store; lookups in which G1 is also a Core course of the major; the stores after loading,
  after one run of the loop over [G1] and after a second run.
\<close>

definition entries_G1 :: "(hkey \<times> json) list" where
  "entries_G1 = [(HStr ''G1'', JList [JStr ''EC''])]"

definition empty_store :: store where
  "empty_store = \<lparr>heap = Map.empty, next_ref = 0\<rparr>"

definition lookups_G1 :: "aval lookups" where
  "lookups_G1 =
     \<lparr>gened_fulfillment_map = merge_entries [(HStr ''G1'', ARef 0)],
      major_core = {HStr ''G1''}, major_elective = {}, adv_lib = {}, lib_art = {}\<rparr>"

definition store_1 :: store where
  "store_1 = \<lparr>heap = [0 \<mapsto> [JStr ''EC'']], next_ref = 1\<rparr>"

definition store_2 :: store where
  "store_2 = \<lparr>heap = [0 \<mapsto> [JStr ''EC''], 1 \<mapsto> [], 2 \<mapsto> [JStr ''EC'', JStr ''Major_Core'']],
               next_ref = 3\<rparr>"

definition store_3 :: store where
  "store_3 = \<lparr>heap = [0 \<mapsto> [JStr ''EC''], 1 \<mapsto> [], 2 \<mapsto> [JStr ''EC'', JStr ''Major_Core''],
                       3 \<mapsto> [], 4 \<mapsto> [JStr ''EC'', JStr ''Major_Core'']],
               next_ref = 5\<rparr>"

text \<open>
  The identifier "12ID" followed by a newline, which no catalog of the shaped bundle
  knows; the resolver's output for it, a minor tree that lists it, and its row.
\<close>

definition ID_newline :: string where
  "ID_newline = ''12ID'' @ [CHR 0x0A]"

definition fl_ID_newline :: "fulfillment list" where
  "fl_ID_newline = [\<lparr>Courses_in_Minor = JStr ID_newline, Fulfilled_Areas = [JStr ''ID'']\<rparr>]"

definition tree_ID_newline :: json where
  "tree_ID_newline =
     JDict [(''Core'', JList [JDict [(''Course'', JStr ID_newline), (''Title'', JStr ''T1'')]])]"

definition row_ID_newline :: row where
  "row_ID_newline =
     \<lparr>Name = JStr ''T1'', Sub_Section = ''A. Mandatory Core Courses'',
      Course = JStr ID_newline, Credit = ''3'',
      Flags = [(''EC'', []), (''MQR'', []), (''LPS'', []), (''WCGI'', []), (''USED'', []),
               (''IS'', []), (''CE'', []), (''SW'', []), (''Lib Art'', []),
               (''Adv Lib Art'', []), (''ID'', ''X''), (''Major_Core'', []),
               (''Major_Elec'', [])]\<rparr>"

section \<open>Auxiliary facts\<close>

lemma bindE_simps [simp]:
  "bindE (Inl e) f = Inl e"
  "bindE (Inr x) f = f x"
  by (simp_all add: bindE_def)

lemma bindE_eq_Inr: "bindE m f = Inr y \<longleftrightarrow> (\<exists>x. m = Inr x \<and> f x = Inr y)"
  by (cases m) simp_all

lemma mapE_total: "(\<And>x. x \<in> set xs \<Longrightarrow> f x = Inr (g x)) \<Longrightarrow> mapE f xs = Inr (map g xs)"
  by (induction xs) simp_all

lemma shaped_lookups_built: "build_lookups ''MAJ'' shaped_bundle = Inr shaped_lookups"
  by (simp add: build_lookups_def shaped_bundle_def shaped_lookups_def gened_empty_def
      lib_empty_def build_gened_map_def core_type_entries_def merge_entries_def
      major_section_def lib_section_def course_set_def)

lemma shaped_bundle_ID: "ID_data shaped_bundle = []"
  by (simp add: shaped_bundle_def)

subsection \<open>The pattern against the wording\<close>

lemma match_digits_ID_at_iff:
  "match_digits_ID_at s \<longleftrightarrow>
     (\<exists>ds. ds \<noteq> [] \<and> (\<forall>d\<in>set ds. is_digit d) \<and> (s = ds @ ''ID'' \<or> s = ds @ ''ID'' @ [CHR 0x0A]))"
  (is "?L \<longleftrightarrow> ?R")
proof
  assume ?L
  then show ?R
    unfolding match_digits_ID_at_def Let_def
    by (metis takeWhile_dropWhile_id set_takeWhileD)
next
  assume ?R
  then obtain ds where ds: "ds \<noteq> []" "\<forall>d\<in>set ds. is_digit d"
     and s: "s = ds @ ''ID'' \<or> s = ds @ ''ID'' @ [CHR 0x0A]" by blast
  have nd: "\<not> is_digit CHR ''I''" by (simp add: is_digit_def)
  from s show ?L
  proof
    assume e: "s = ds @ ''ID''"
    have "takeWhile is_digit s = ds" using ds nd by (simp add: e)
    moreover have "dropWhile is_digit s = ''ID''" using ds nd by (simp add: e)
    ultimately show ?thesis using ds by (simp add: match_digits_ID_at_def)
  next
    assume e: "s = ds @ ''ID'' @ [CHR 0x0A]"
    have "takeWhile is_digit s = ds" using ds nd by (simp add: e)
    moreover have "dropWhile is_digit s = ''ID'' @ [CHR 0x0A]" using ds nd by (simp add: e)
    ultimately show ?thesis using ds by (simp add: match_digits_ID_at_def)
  qed
qed

lemma re_search_digits_ID_iff:
  "re_search_digits_ID s \<longleftrightarrow> (\<exists>p t. s = p @ t \<and> match_digits_ID_at t)"
proof (induction s)
  case Nil
  then show ?case by (simp add: match_digits_ID_at_def)
next
  case (Cons c cs)
  show ?case
  proof
    assume "re_search_digits_ID (c # cs)"
    then consider "match_digits_ID_at (c # cs)" | "re_search_digits_ID cs" by auto
    then show "\<exists>p t. c # cs = p @ t \<and> match_digits_ID_at t"
    proof cases
      case 1 then show ?thesis by (metis append_Nil)
    next
      case 2 then obtain p t where "cs = p @ t" "match_digits_ID_at t" using Cons.IH by blast
      then show ?thesis by (metis append_Cons)
    qed
  next
    assume "\<exists>p t. c # cs = p @ t \<and> match_digits_ID_at t"
    then obtain p t where pt: "c # cs = p @ t" "match_digits_ID_at t" by blast
    show "re_search_digits_ID (c # cs)"
    proof (cases p)
      case Nil with pt have "t = c # cs" by simp
      with pt show ?thesis by simp
    next
      case (Cons a p') with pt have "cs = p' @ t" by simp
      with pt Cons.IH show ?thesis by auto
    qed
  qed
qed

lemma re_search_digits_ID_spec:
  "re_search_digits_ID s \<longleftrightarrow>
     ends_in_digits_ID s \<or> (\<exists>t. s = t @ [CHR 0x0A] \<and> ends_in_digits_ID t)"
  (is "?L \<longleftrightarrow> ?R")
proof
  assume ?L
  then obtain p ds where ds: "ds \<noteq> []" "\<forall>d\<in>set ds. is_digit d"
    and s: "s = p @ ds @ ''ID'' \<or> s = p @ ds @ ''ID'' @ [CHR 0x0A]"
    unfolding re_search_digits_ID_iff match_digits_ID_at_iff by blast
  from s show ?R
  proof
    assume "s = p @ ds @ ''ID''"
    with ds show ?thesis unfolding ends_in_digits_ID_def by blast
  next
    assume "s = p @ ds @ ''ID'' @ [CHR 0x0A]"
    then have "s = (p @ ds @ ''ID'') @ [CHR 0x0A]" by simp
    moreover have "ends_in_digits_ID (p @ ds @ ''ID'')"
      using ds unfolding ends_in_digits_ID_def by blast
    ultimately show ?thesis by blast
  qed
next
  assume ?R
  then show ?L
  proof
    assume "ends_in_digits_ID s"
    then obtain p ds where "s = p @ ds @ ''ID''" "ds \<noteq> []" "\<forall>d\<in>set ds. is_digit d"
      unfolding ends_in_digits_ID_def by blast
    then show ?thesis unfolding re_search_digits_ID_iff match_digits_ID_at_iff by blast
  next
    assume "\<exists>t. s = t @ [CHR 0x0A] \<and> ends_in_digits_ID t"
    then obtain p ds where "s = p @ ds @ ''ID'' @ [CHR 0x0A]" "ds \<noteq> []" "\<forall>d\<in>set ds. is_digit d"
      unfolding ends_in_digits_ID_def by auto
    then show ?thesis unfolding re_search_digits_ID_iff match_digits_ID_at_iff by blast
  qed
qed

lemma ends_in_digits_ID_eval:
  "ends_in_digits_ID s \<longleftrightarrow>
     (case rev s of d2 # d1 # d # _ \<Rightarrow> d2 = CHR ''D'' \<and> d1 = CHR ''I'' \<and> is_digit d | _ \<Rightarrow> False)"
  (is "?L \<longleftrightarrow> ?R")
proof
  assume ?L
  then obtain p ds where s: "s = p @ ds @ ''ID''" and ds: "ds \<noteq> []" "\<forall>d\<in>set ds. is_digit d"
    unfolding ends_in_digits_ID_def by blast
  from ds obtain ds' d where dsd: "ds = ds' @ [d]" by (metis rev_exhaust)
  with ds have "is_digit d" by simp
  moreover have "rev s = CHR ''D'' # CHR ''I'' # d # rev ds' @ rev p" by (simp add: s dsd)
  ultimately show ?R by simp
next
  assume ?R
  then obtain d r where r: "rev s = CHR ''D'' # CHR ''I'' # d # r" and d: "is_digit d"
    by (auto split: list.splits)
  from r have "rev (rev s) = rev (CHR ''D'' # CHR ''I'' # d # r)" by simp
  then have "s = rev r @ [d] @ ''ID''" by simp
  moreover have "[d] \<noteq> []" "\<forall>x\<in>set [d]. is_digit x" using d by simp_all
  ultimately show ?L unfolding ends_in_digits_ID_def by blast
qed

lemma ends_with_char_eval:
  "(\<exists>t. s = t @ [c] \<and> P t) \<longleftrightarrow> (s \<noteq> [] \<and> last s = c \<and> P (butlast s))"
  by (metis append_butlast_last_id butlast_snoc last_snoc snoc_eq_iff_butlast)

section \<open>The interdisciplinary rule\<close>

text \<open>
  Claim C4, as the source has it. For every list of string identifiers, the resolver
  returns one entry per identifier, and the entry of \<open>s\<close> gets the tag "ID" appended
  exactly when \<open>s\<close> is a key of the interdisciplinary catalog, or \<open>s\<close> ends in one or more
  digits followed by "ID", or \<open>s\<close> ends in one or more digits, "ID" and one final newline
  (the \<^verbatim>\<open>$\<close> of the pattern also matches before a trailing newline). The areas before
  the tag are those of the earlier steps.
\<close>

theorem resolver_ID_rule:
  assumes "build_lookups selected_major b = Inr lk"
  shows "map_gened_requirements (map JStr ss) selected_major b =
     Inr (map (\<lambda>s. \<lparr>Courses_in_Minor = JStr s,
                     Fulfilled_Areas = fulfilled_before_ID lk (HStr s) @
                       (if s \<in> fst ` set (ID_data b) \<or> ends_in_digits_ID s
                           \<or> (\<exists>t. s = t @ [CHR 0x0A] \<and> ends_in_digits_ID t)
                        then [JStr ''ID''] else [])\<rparr>) ss)"
proof -
  have "mapE (resolve_course lk (ID_data b)) (map JStr ss) =
     Inr (map (\<lambda>c. case c of JStr s \<Rightarrow> \<lparr>Courses_in_Minor = JStr s,
                     Fulfilled_Areas = fulfilled_before_ID lk (HStr s) @
                       (if s \<in> fst ` set (ID_data b) \<or> ends_in_digits_ID s
                           \<or> (\<exists>t. s = t @ [CHR 0x0A] \<and> ends_in_digits_ID t)
                        then [JStr ''ID''] else [])\<rparr>) (map JStr ss))"
    by (rule mapE_total)
       (auto simp: resolve_course_def is_ID_def re_search_digits_ID_spec)
  then show ?thesis
    by (simp add: map_gened_requirements_def assms o_def)
qed

text \<open>The theorem at the identifiers "12ID" (no key of the empty catalog) and "X1".\<close>

theorem resolver_ID_rule_witness:
  "build_lookups ''MAJ'' shaped_bundle = Inr shaped_lookups \<and>
   map_gened_requirements [JStr ''12ID'', JStr ''X1''] ''MAJ'' shaped_bundle =
     Inr [\<lparr>Courses_in_Minor = JStr ''12ID'', Fulfilled_Areas = [JStr ''ID'']\<rparr>,
          \<lparr>Courses_in_Minor = JStr ''X1'', Fulfilled_Areas = [JStr ''Major_Core'']\<rparr>]"
  using resolver_ID_rule [OF shaped_lookups_built, of "[''12ID'', ''X1'']"]
  by (simp add: shaped_lookups_built shaped_bundle_ID ends_in_digits_ID_eval
      ends_with_char_eval is_digit_def fulfilled_before_ID_def major_lib_tags_def seed_areas_def
      shaped_lookups_def)

text \<open>
  The claim as worded fails at the identifier "12ID" followed by a newline: it is no key
  of the catalog and does not end in digits followed by "ID", and the resolver tags it.
\<close>

theorem resolver_ID_newline_counterexample:
  "\<not> (''12ID'' @ [CHR 0x0A] \<in> fst ` set (ID_data shaped_bundle)
        \<or> ends_in_digits_ID (''12ID'' @ [CHR 0x0A])) \<and>
   map_gened_requirements [JStr (''12ID'' @ [CHR 0x0A])] ''MAJ'' shaped_bundle =
     Inr [\<lparr>Courses_in_Minor = JStr (''12ID'' @ [CHR 0x0A]), Fulfilled_Areas = [JStr ''ID'']\<rparr>]"
  by (simp add: map_gened_requirements_def shaped_lookups_built shaped_bundle_ID
      resolve_course_def is_ID_def match_digits_ID_at_def ends_in_digits_ID_eval is_digit_def
      fulfilled_before_ID_def major_lib_tags_def seed_areas_def shaped_lookups_def)

section \<open>The end-to-end example\<close>

lemma courses_of_M: "get_minor_courses ''M'' minor_M = Inr [JStr ''X1'']"
  by (simp add: get_minor_courses_def minor_M_def section_courses_def)

lemma resolved_X1:
  "map_gened_requirements [JStr ''X1''] ''MAJ'' shaped_bundle =
     Inr [\<lparr>Courses_in_Minor = JStr ''X1'', Fulfilled_Areas = [JStr ''Major_Core'']\<rparr>]"
  by (simp add: map_gened_requirements_def shaped_lookups_built shaped_bundle_ID
      resolve_course_def is_ID_def match_digits_ID_at_def is_digit_def
      fulfilled_before_ID_def major_lib_tags_def seed_areas_def shaped_lookups_def)

lemma credit_string_default:
  "credit_string [(''Course'', JStr ''X1''), (''Title'', JStr ''T1'')] = Inr ''3''"
  by (simp add: credit_string_def get_credit_info_def explicit_credit_def dict_get_none_def
      py_lower_def lower_char_def is_min_max_def format_credit_def show_int_def
      show_nat.simps digit_char_def)

lemma table_X1:
  "process_curriculum_json ''M''
     (JDict [(''Core'', JList [JDict [(''Course'', JStr ''X1''), (''Title'', JStr ''T1'')]])])
     gened_areas
     [\<lparr>Courses_in_Minor = JStr ''X1'', Fulfilled_Areas = [JStr ''Major_Core'']\<rparr>]
   = Inr [row_X1]"
  by (simp add: process_curriculum_json_def build_fulfillment_map_def merge_entries_def
      processed_list_def section_rows_def section_item_def course_entry_def
      credit_string_default fulfilled_areas_of_def course_dict_def gened_areas_def row_X1_def)

text \<open>
  Claim C1, as the source has it. With the minor catalog of the example and catalogs of the
  shape the resolver reads (gen-ed with empty "Required Core" and "Flexible Core" lists
  under "gened", the major's Core a list of entries with a "Course" field, liberal arts
  with empty "Lib Art" and "Adv Lib Art" lists, an empty interdisciplinary dictionary),
  the extractor returns the one course, the resolver tags it "Major_Core", the
  materializer builds one row, and the analysis shows a table of exactly that row:
  sub-section "A. Mandatory Core Courses", credit "3", "Major_Core" flagged, every other
  area blank.
\<close>

theorem end_to_end_shaped:
  "get_minor_courses ''M'' (minor_data shaped_bundle) = Inr [JStr ''X1''] \<and>
   map_gened_requirements [JStr ''X1''] ''MAJ'' shaped_bundle =
     Inr [\<lparr>Courses_in_Minor = JStr ''X1'', Fulfilled_Areas = [JStr ''Major_Core'']\<rparr>] \<and>
   analyze ''MAJ'' ''M'' shaped_bundle = Inr (Rendered [row_X1])"
proof -
  have m: "minor_data shaped_bundle = minor_M" by (simp add: shaped_bundle_def)
  have t: "map_of minor_M ''M'' =
      Some (JDict [(''Core'', JList [JDict [(''Course'', JStr ''X1''), (''Title'', JStr ''T1'')]])])"
    by (simp add: minor_M_def)
  have "analyze ''MAJ'' ''M'' shaped_bundle = Inr (Rendered [row_X1])"
    by (simp add: analyze_def m courses_of_M resolved_X1 t table_X1)
  then show ?thesis by (simp add: m courses_of_M resolved_X1)
qed

text \<open>
  The example as the specification writes it raises instead of producing a table: on the
  empty gen-ed document \<^verbatim>\<open>gened_data['gened']\<close> is a \<^verbatim>\<open>KeyError\<close>, and once the empty
  catalogs have their keys, \<^verbatim>\<open>c['Course']\<close> on the identifier string "X1" of the major's
  Core is a \<^verbatim>\<open>TypeError\<close>.
\<close>

theorem end_to_end_as_written_counterexample:
  "analyze ''MAJ'' ''M'' spec_bundle = Inl KeyError \<and>
   analyze ''MAJ'' ''M'' spec_bundle_keyed = Inl TypeError"
proof -
  have m: "minor_data spec_bundle = minor_M" "minor_data spec_bundle_keyed = minor_M"
    by (simp_all add: spec_bundle_def spec_bundle_keyed_def)
  have 1: "map_gened_requirements [JStr ''X1''] ''MAJ'' spec_bundle = Inl KeyError"
    by (simp add: map_gened_requirements_def build_lookups_def spec_bundle_def
        build_gened_map_def core_type_entries_def)
  have 2: "map_gened_requirements [JStr ''X1''] ''MAJ'' spec_bundle_keyed = Inl TypeError"
    by (simp add: map_gened_requirements_def build_lookups_def spec_bundle_keyed_def
        gened_empty_def build_gened_map_def core_type_entries_def merge_entries_def
        major_of_strings_def major_section_def course_set_def)
  show ?thesis by (simp add: analyze_def m courses_of_M 1 2)
qed

section \<open>A minor that is not in the catalog\<close>

text \<open>
  Claim C8. For every minor catalog and every minor name that is no key of it, the
  extractor returns the empty sequence (no exception, no course), and the analysis then
  shows the warning "No course data found for minor: ..." without resolving or
  materializing anything.
\<close>

theorem missing_minor_no_data:
  assumes "selected_minor \<notin> fst ` set (minor_data b)"
  shows "get_minor_courses selected_minor (minor_data b) = Inr [] \<and>
         analyze selected_major selected_minor b =
           Inr (Warning (''No course data found for minor: '' @ selected_minor))"
proof -
  from assms have "map_of (minor_data b) selected_minor = None"
    by (simp add: map_of_eq_None_iff)
  then have "get_minor_courses selected_minor (minor_data b) = Inr []"
    by (simp add: get_minor_courses_def)
  then show ?thesis by (simp add: analyze_def)
qed

theorem missing_minor_no_data_witness:
  "''Q'' \<notin> fst ` set (minor_data shaped_bundle) \<and>
   get_minor_courses ''Q'' (minor_data shaped_bundle) = Inr [] \<and>
   analyze ''MAJ'' ''Q'' shaped_bundle = Inr (Warning ''No course data found for minor: Q'')"
proof -
  have h: "''Q'' \<notin> fst ` set (minor_data shaped_bundle)"
    by (simp add: shaped_bundle_def minor_M_def)
  from missing_minor_no_data [OF h, of "''MAJ''"] h show ?thesis by simp
qed

section \<open>Credit metadata that is not a Min/Max pair\<close>

text \<open>
  Claim C2 at a malformed explicit credit. \<^verbatim>\<open>get_credit_info\<close> returns any truthy value
  found under "Credit" as it is: the number 3 of \<^verbatim>\<open>{"Course":"X1","Credit":3}\<close> is
  returned in place of the default pair, and \<^verbatim>\<open>credit_info['Min']\<close> then raises a
  \<^verbatim>\<open>TypeError\<close> that ends the materializer; a credit dictionary without "Max" ends it
  with a \<^verbatim>\<open>KeyError\<close>. Only the scan over the other fields checks for the pair.
\<close>

theorem malformed_explicit_credit_raises:
  "get_credit_info entry_credit_number = JInt 3 \<and>
   credit_string entry_credit_number = Inl TypeError \<and>
   process_curriculum_json ''M'' tree_credit_number gened_areas [] = Inl TypeError \<and>
   get_credit_info entry_credit_no_max = JDict [(''Min'', JInt 3)] \<and>
   credit_string entry_credit_no_max = Inl KeyError"
proof -
  have g: "get_credit_info entry_credit_number = JInt 3"
    by (simp add: get_credit_info_def explicit_credit_def dict_get_none_def
        entry_credit_number_def)
  have c: "credit_string entry_credit_number = Inl TypeError"
    by (simp add: credit_string_def g)
  have p: "process_curriculum_json ''M'' tree_credit_number gened_areas [] = Inl TypeError"
    by (simp add: process_curriculum_json_def build_fulfillment_map_def processed_list_def
        tree_credit_number_def section_rows_def section_item_def course_entry_def c)
       (simp add: entry_credit_number_def)
  have g': "get_credit_info entry_credit_no_max = JDict [(''Min'', JInt 3)]"
    by (simp add: get_credit_info_def explicit_credit_def dict_get_none_def
        entry_credit_no_max_def)
  have c': "credit_string entry_credit_no_max = Inl KeyError"
    by (simp add: credit_string_def g')
  from g c p g' c' show ?thesis by simp
qed

section \<open>The merged gen-ed lookup and single area values\<close>

lemma fold_upd_map_of:
  "fold (\<lambda>e m. m(fst e \<mapsto> snd e)) es m0 = m0 ++ map_of (rev es)"
proof (induction es arbitrary: m0)
  case Nil
  then show ?case by simp
next
  case (Cons e es)
  have "fold (\<lambda>e m. m(fst e \<mapsto> snd e)) (e # es) m0 = (m0(fst e \<mapsto> snd e)) ++ map_of (rev es)"
    by (simp only: fold_Cons o_apply Cons.IH)
  also have "\<dots> = m0 ++ (map_of [e] ++ map_of (rev es))"
    by (rule ext) (simp add: map_add_def split: option.splits)
  also have "\<dots> = m0 ++ map_of (rev (e # es))"
    by simp
  finally show ?case .
qed

lemma merge_entries_map_of: "merge_entries es = map_of (rev es)"
  by (simp add: merge_entries_def fold_upd_map_of)

lemma build_lookups_gened:
  assumes "build_lookups selected_major b = Inr lk"
  shows "\<exists>rs fs. core_type_entries (gened_data b) ''Required Core'' = Inr rs \<and>
                 core_type_entries (gened_data b) ''Flexible Core'' = Inr fs \<and>
                 gened_fulfillment_map lk = map_of (rev (rs @ fs))"
  using assms
  by (auto simp: build_lookups_def build_gened_map_def bindE_eq_Inr merge_entries_map_of)

lemma resolve_course_str:
  "resolve_course lk ID (JStr s) =
     Inr \<lparr>Courses_in_Minor = JStr s,
          Fulfilled_Areas = fulfilled_before_ID lk (HStr s) @
            (if s \<in> fst ` set ID \<or> re_search_digits_ID s then [JStr ''ID''] else [])\<rparr>"
  by (simp add: resolve_course_def is_ID_def)

lemma seed_areas_non_list:
  "\<forall>xs. v \<noteq> JList xs \<Longrightarrow> seed_areas v = (if py_truthy v then [v] else [])"
  by (cases v) (simp_all add: seed_areas_def)

text \<open>
  Claim C7, as the source has it. The gen-ed lookup is one map built from the entries of
  "Required Core" followed by those of "Flexible Core" (a later entry of the same course
  replaces an earlier one). For a course of that map whose stored value \<open>v\<close> is not a
  list, the resolved areas start with the one-element sequence \<open>[v]\<close> when \<open>v\<close> is
  truthy, and with nothing when \<open>v\<close> is falsy (null, false, 0, the empty string, the empty
  dictionary): the source writes \<^verbatim>\<open>[fulfilled_geneds] if fulfilled_geneds else []\<close>.
\<close>

theorem gened_single_value_seed:
  assumes lk: "build_lookups selected_major b = Inr lk"
    and v: "gened_fulfillment_map lk (HStr s) = Some v"
    and nl: "\<forall>xs. v \<noteq> JList xs"
  shows "(\<exists>rs fs. core_type_entries (gened_data b) ''Required Core'' = Inr rs \<and>
                  core_type_entries (gened_data b) ''Flexible Core'' = Inr fs \<and>
                  gened_fulfillment_map lk = map_of (rev (rs @ fs))) \<and>
         map_gened_requirements [JStr s] selected_major b =
           Inr [\<lparr>Courses_in_Minor = JStr s,
                 Fulfilled_Areas = (if py_truthy v then [v] else []) @ major_lib_tags lk (HStr s) @
                   (if s \<in> fst ` set (ID_data b) \<or> re_search_digits_ID s
                    then [JStr ''ID''] else [])\<rparr>]"
  using build_lookups_gened [OF lk] seed_areas_non_list [OF nl]
  by (simp add: map_gened_requirements_def lk resolve_course_str fulfilled_before_ID_def v)

lemma single_lookups_built: "build_lookups ''MAJ'' single_bundle = Inr single_lookups"
  by (simp add: build_lookups_def single_bundle_def shaped_bundle_def single_lookups_def gened_single_def
      lib_empty_def build_gened_map_def core_type_entries_def merge_entries_def gened_entry_def
      major_section_def lib_section_def course_set_def)

lemma single_bundle_ID: "ID_data single_bundle = []"
  by (simp add: single_bundle_def shaped_bundle_def)

theorem gened_single_value_seed_witness:
  "build_lookups ''MAJ'' single_bundle = Inr single_lookups \<and>
   gened_fulfillment_map single_lookups (HStr ''G1'') = Some (JStr ''EC'') \<and>
   (\<forall>xs. JStr ''EC'' \<noteq> JList xs) \<and>
   map_gened_requirements [JStr ''G1''] ''MAJ'' single_bundle =
     Inr [\<lparr>Courses_in_Minor = JStr ''G1'', Fulfilled_Areas = [JStr ''EC'']\<rparr>]"
proof -
  have v: "gened_fulfillment_map single_lookups (HStr ''G1'') = Some (JStr ''EC'')"
    by (simp add: single_lookups_def)
  have nl: "\<forall>xs. JStr ''EC'' \<noteq> JList xs" by simp
  from gened_single_value_seed [OF single_lookups_built v nl]
  have "map_gened_requirements [JStr ''G1''] ''MAJ'' single_bundle =
     Inr [\<lparr>Courses_in_Minor = JStr ''G1'', Fulfilled_Areas = [JStr ''EC'']\<rparr>]"
    by (simp add: single_bundle_ID major_lib_tags_def single_lookups_def
        match_digits_ID_at_def is_digit_def)
  with v nl single_lookups_built show ?thesis by simp
qed

text \<open>
  The claim as worded fails at the course G2, whose stored value is the single non-list
  value \<^verbatim>\<open>""\<close>: its areas are empty, not the one-element sequence of that value.
\<close>

theorem gened_blank_value_counterexample:
  "build_lookups ''MAJ'' single_bundle = Inr single_lookups \<and>
   gened_fulfillment_map single_lookups (HStr ''G2'') = Some (JStr []) \<and>
   map_gened_requirements [JStr ''G2''] ''MAJ'' single_bundle =
     Inr [\<lparr>Courses_in_Minor = JStr ''G2'', Fulfilled_Areas = []\<rparr>]"
  by (simp add: single_lookups_built map_gened_requirements_def resolve_course_str
      single_bundle_ID fulfilled_before_ID_def major_lib_tags_def seed_areas_def
      match_digits_ID_at_def is_digit_def)
     (simp add: single_lookups_def)

section \<open>Facts about the resolver and the materializer\<close>

lemma mapE_Inr_all2: "mapE f xs = Inr ys \<Longrightarrow> list_all2 (\<lambda>x y. f x = Inr y) xs ys"
  by (induction xs arbitrary: ys) (auto simp: bindE_eq_Inr)

lemma mapE_Inr_set:
  "mapE f xs = Inr ys \<Longrightarrow> y \<in> set ys \<Longrightarrow> \<exists>x\<in>set xs. f x = Inr y"
proof (induction xs arbitrary: ys)
  case Nil
  then show ?case by simp
next
  case (Cons x xs)
  from Cons.prems(1) obtain z zs where z: "f x = Inr z" and zs: "mapE f xs = Inr zs"
    and ys: "ys = z # zs"
    by (auto simp: bindE_eq_Inr)
  from Cons.prems(2) ys consider "y = z" | "y \<in> set zs" by auto
  then show ?case
  proof cases
    case 1
    with z show ?thesis by simp
  next
    case 2
    from Cons.IH [OF zs 2] show ?thesis by auto
  qed
qed

lemma map_gened_requirements_strs:
  assumes "build_lookups selected_major b = Inr lk"
  shows "map_gened_requirements (map JStr ss) selected_major b =
     Inr (map (\<lambda>s. \<lparr>Courses_in_Minor = JStr s,
                     Fulfilled_Areas = fulfilled_before_ID lk (HStr s) @
                       (if s \<in> fst ` set (ID_data b) \<or> re_search_digits_ID s
                        then [JStr ''ID''] else [])\<rparr>) ss)"
proof -
  have "mapE (resolve_course lk (ID_data b)) (map JStr ss) =
     Inr (map (\<lambda>c. case c of JStr s \<Rightarrow> \<lparr>Courses_in_Minor = JStr s,
                     Fulfilled_Areas = fulfilled_before_ID lk (HStr s) @
                       (if s \<in> fst ` set (ID_data b) \<or> re_search_digits_ID s
                        then [JStr ''ID''] else [])\<rparr>) (map JStr ss))"
    by (rule mapE_total) (auto simp: resolve_course_str)
  then show ?thesis
    by (simp add: map_gened_requirements_def assms o_def)
qed

lemma build_lookups_adv:
  assumes "build_lookups selected_major b = Inr lk"
  shows "lib_section (lib_data b) ''Adv Lib Art'' = Inr (adv_lib lk)"
  using assms by (auto simp: build_lookups_def bindE_eq_Inr)

lemma resolve_course_Inr:
  assumes "resolve_course lk ID c = Inr r"
  shows "Courses_in_Minor r = c"
  using assms by (auto simp: resolve_course_def bindE_eq_Inr)

lemma hash_key_HStr: "hash_key c = Inr (HStr s) \<longleftrightarrow> c = JStr s"
  by (cases c) auto

lemma merge_entries_Some: "merge_entries es k = Some v \<Longrightarrow> (k, v) \<in> set es"
  by (simp add: merge_entries_map_of) (metis map_of_SomeD set_rev)

lemma build_fulfillment_map_Some:
  assumes "build_fulfillment_map fl = Inr fm" "fm k = Some a"
  shows "\<exists>item\<in>set fl. hash_key (Courses_in_Minor item) = Inr k \<and> Fulfilled_Areas item = a"
proof -
  from assms(1) obtain es where
    es: "mapE (\<lambda>item. bindE (hash_key (Courses_in_Minor item)) (\<lambda>k. Inr (k, Fulfilled_Areas item))) fl = Inr es"
    and fm: "fm = merge_entries es"
    by (auto simp: build_fulfillment_map_def bindE_eq_Inr)
  from assms(2) fm have "(k, a) \<in> set es" by (simp add: merge_entries_Some)
  from mapE_Inr_set [OF es this] show ?thesis by (auto simp: bindE_eq_Inr)
qed

lemma course_entry_areas:
  assumes "course_entry fm sub dflt item = Inr p"
  shows "fulfilled_areas_of fm (p_Courses_in_Minor p) = Inr (p_Fulfilled_Areas p)"
  using assms by (auto simp: course_entry_def bindE_eq_Inr)

lemma section_item_areas:
  assumes "section_item fm dl dflt gl item = Inr ps" "p \<in> set ps"
  shows "fulfilled_areas_of fm (p_Courses_in_Minor p) = Inr (p_Fulfilled_Areas p)"
proof -
  from assms(1) obtain hc where hc: "str_in ''Course'' item = Inr hc"
    by (auto simp: section_item_def bindE_eq_Inr)
  show ?thesis
  proof (cases hc)
    case True
    with assms(1) hc obtain r where "course_entry fm dl dflt item = Inr r" "ps = [r]"
      by (auto simp: section_item_def bindE_eq_Inr)
    with assms(2) show ?thesis by (simp add: course_entry_areas)
  next
    case False
    with assms(1) hc obtain hg where hg: "str_in ''group'' item = Inr hg"
      by (auto simp: section_item_def bindE_eq_Inr)
    show ?thesis
    proof (cases hg)
      case True
      with assms(1) hc hg \<open>\<not> hc\<close> obtain g infos where
        "mapE (course_entry fm (gl @ py_str g) (JStr [])) infos = Inr ps"
        by (auto simp: section_item_def bindE_eq_Inr)
      from mapE_Inr_set [OF this assms(2)] show ?thesis
        by (auto simp: course_entry_areas)
    next
      case False
      with assms hc hg \<open>\<not> hc\<close> show ?thesis by (simp add: section_item_def)
    qed
  qed
qed

lemma section_rows_areas:
  assumes "section_rows fm dl dflt gl sec = Inr ps" "p \<in> set ps"
  shows "fulfilled_areas_of fm (p_Courses_in_Minor p) = Inr (p_Fulfilled_Areas p)"
proof -
  from assms(1) obtain items rss where
    rss: "mapE (section_item fm dl dflt gl) items = Inr rss" and ps: "ps = concat rss"
    by (auto simp: section_rows_def bindE_eq_Inr)
  from assms(2) ps obtain rs where rs: "rs \<in> set rss" "p \<in> set rs" by auto
  from mapE_Inr_set [OF rss rs(1)] obtain item where "section_item fm dl dflt gl item = Inr rs"
    by blast
  from section_item_areas [OF this rs(2)] show ?thesis .
qed

lemma processed_list_areas:
  assumes "processed_list data fm = Inr ps" "p \<in> set ps"
  shows "fulfilled_areas_of fm (p_Courses_in_Minor p) = Inr (p_Fulfilled_Areas p)"
proof -
  from assms(1) obtain cs es crs ers where
    "section_rows fm ''A. Mandatory Core Courses'' (JStr ''Mandatory'')
       ''B. Conditional Core: '' cs = Inr crs"
    "section_rows fm ''A. General Electives List'' (JStr [])
       ''B. Conditional Elective: '' es = Inr ers"
    "ps = crs @ ers"
    unfolding processed_list_def bindE_eq_Inr by blast
  with assms(2) show ?thesis
    by (auto dest: section_rows_areas)
qed

lemma process_curriculum_json_rows:
  assumes "process_curriculum_json nm data areas fl = Inr rows" "row \<in> set rows"
  shows "\<exists>fm a. build_fulfillment_map fl = Inr fm \<and>
           fulfilled_areas_of fm (Course row) = Inr a \<and>
           Flags row = map (\<lambda>g. (g, if JStr g \<in> set a then ''X'' else [])) areas"
proof -
  from assms(1) obtain fm ps where fm: "build_fulfillment_map fl = Inr fm"
    and ps: "processed_list data fm = Inr ps" and rows: "rows = map (course_dict areas) ps"
    by (auto simp: process_curriculum_json_def bindE_eq_Inr)
  from assms(2) rows obtain p where p: "p \<in> set ps" "row = course_dict areas p" by auto
  from processed_list_areas [OF ps p(1)] fm p(2) show ?thesis
    by (auto simp: course_dict_def)
qed

section \<open>Examples evaluated\<close>

lemma credit_string_course_title:
  "credit_string [(''Course'', c), (''Title'', t)] = Inr ''3''"
  by (simp add: credit_string_def get_credit_info_def explicit_credit_def dict_get_none_def
      py_lower_def lower_char_def is_min_max_def format_credit_def show_int_def
      show_nat.simps digit_char_def)

lemma lib_lookups_built: "build_lookups ''MAJ'' lib_bundle = Inr lib_lookups"
  by (simp add: build_lookups_def lib_bundle_def shaped_bundle_def lib_lookups_def
      shaped_lookups_def gened_empty_def lib_adv_def build_gened_map_def core_type_entries_def
      merge_entries_def major_section_def lib_section_def course_set_def)

lemma lib_bundle_ID: "ID_data lib_bundle = []"
  by (simp add: lib_bundle_def shaped_bundle_def)

section \<open>Advanced liberal arts\<close>

text \<open>
  Claim C5. When the lookups can be built, the resolver returns for every list of string
  identifiers, and for every identifier \<open>s\<close> of the list whose key is in the set built from
  the "Adv Lib Art" list of the liberal-arts catalog, the list holds an entry for \<open>s\<close> and
  every entry for \<open>s\<close> has both "Lib Art" and "Adv Lib Art" among its areas, whether or not
  \<open>s\<close> is in the "Lib Art" list.
\<close>

theorem adv_lib_art_implies_lib_art:
  assumes lk: "build_lookups selected_major b = Inr lk"
    and adv: "lib_section (lib_data b) ''Adv Lib Art'' = Inr adv"
    and mem: "HStr s \<in> adv"
    and s: "s \<in> set ss"
  shows "\<exists>res. map_gened_requirements (map JStr ss) selected_major b = Inr res \<and>
           (\<exists>r\<in>set res. Courses_in_Minor r = JStr s) \<and>
           (\<forall>r\<in>set res. Courses_in_Minor r = JStr s \<longrightarrow>
              JStr ''Lib Art'' \<in> set (Fulfilled_Areas r) \<and>
              JStr ''Adv Lib Art'' \<in> set (Fulfilled_Areas r))"
proof -
  from build_lookups_adv [OF lk] adv have "adv_lib lk = adv" by simp
  with mem have "HStr s \<in> adv_lib lk" by simp
  then have tags: "JStr ''Lib Art'' \<in> set (fulfilled_before_ID lk (HStr s))"
      "JStr ''Adv Lib Art'' \<in> set (fulfilled_before_ID lk (HStr s))"
    by (simp_all add: fulfilled_before_ID_def major_lib_tags_def)
  show ?thesis
    using s tags by (auto simp: map_gened_requirements_strs [OF lk])
qed

theorem adv_lib_art_implies_lib_art_witness:
  "build_lookups ''MAJ'' lib_bundle = Inr lib_lookups \<and>
   lib_section (lib_data lib_bundle) ''Adv Lib Art'' = Inr {HStr ''A1''} \<and>
   HStr ''A1'' \<in> {HStr ''A1''} \<and> ''A1'' \<in> set [''A1''] \<and>
   map_gened_requirements [JStr ''A1''] ''MAJ'' lib_bundle =
     Inr [\<lparr>Courses_in_Minor = JStr ''A1'',
           Fulfilled_Areas = [JStr ''Lib Art'', JStr ''Adv Lib Art'']\<rparr>]"
proof -
  have adv: "lib_section (lib_data lib_bundle) ''Adv Lib Art'' = Inr {HStr ''A1''}"
    by (simp add: lib_bundle_def lib_adv_def lib_section_def course_set_def)
  have mem: "HStr ''A1'' \<in> {HStr ''A1''}" by simp
  have s: "''A1'' \<in> set [''A1'']" by simp
  have ev: "map_gened_requirements [JStr ''A1''] ''MAJ'' lib_bundle =
     Inr [\<lparr>Courses_in_Minor = JStr ''A1'',
           Fulfilled_Areas = [JStr ''Lib Art'', JStr ''Adv Lib Art'']\<rparr>]"
    by (simp add: map_gened_requirements_def lib_lookups_built resolve_course_str lib_bundle_ID
        fulfilled_before_ID_def major_lib_tags_def seed_areas_def match_digits_ID_at_def
        is_digit_def)
       (simp add: lib_lookups_def shaped_lookups_def)
  from adv_lib_art_implies_lib_art [OF lib_lookups_built adv mem s] lib_lookups_built adv ev
  show ?thesis by simp
qed

section \<open>Flags are a function of the course identifier\<close>

text \<open>
  Claim C10. Two rows of the table with the same course identifier have the same flag
  cells, whatever their sub-sections and titles: the areas of a row are looked up in
  \<^verbatim>\<open>fulfillment_map\<close> under the course alone.
\<close>

theorem flags_depend_on_course_only:
  assumes "process_curriculum_json nm data areas fl = Inr rows"
    and "r1 \<in> set rows" "r2 \<in> set rows" "Course r1 = Course r2"
  shows "Flags r1 = Flags r2"
  using process_curriculum_json_rows [OF assms(1,2)] process_curriculum_json_rows [OF assms(1,3)]
    assms(4)
  by auto

text \<open>The same course in Core and in Electives: two sub-sections, one set of flags.\<close>

lemma table_two_sections:
  "process_curriculum_json ''M'' tree_two_sections gened_areas fl_X1 =
     Inr [row_X1, row_X1_elective]"
  by (simp add: process_curriculum_json_def build_fulfillment_map_def merge_entries_def fl_X1_def
      processed_list_def tree_two_sections_def section_rows_def section_item_def
      course_entry_def credit_string_course_title fulfilled_areas_of_def course_dict_def
      gened_areas_def row_X1_def row_X1_elective_def)

theorem flags_depend_on_course_only_witness:
  "process_curriculum_json ''M'' tree_two_sections gened_areas fl_X1 =
     Inr [row_X1, row_X1_elective] \<and>
   row_X1 \<in> set [row_X1, row_X1_elective] \<and> row_X1_elective \<in> set [row_X1, row_X1_elective] \<and>
   Course row_X1 = Course row_X1_elective \<and> Sub_Section row_X1 \<noteq> Sub_Section row_X1_elective \<and>
   Flags row_X1 = Flags row_X1_elective"
proof -
  have 1: "row_X1 \<in> set [row_X1, row_X1_elective]"
    and 2: "row_X1_elective \<in> set [row_X1, row_X1_elective]" by simp_all
  have 3: "Course row_X1 = Course row_X1_elective" by (simp add: row_X1_elective_def)
  from flags_depend_on_course_only [OF table_two_sections 1 2 3] table_two_sections 3
  show ?thesis by (simp add: row_X1_elective_def row_X1_def)
qed

section \<open>A course that no catalog knows\<close>

text \<open>
  Claim C6, as the source has it. Let the identifier \<open>s\<close> be absent from the merged gen-ed
  lookup, from the major's Core and Electives sets, from both liberal-arts sets and from
  the keys of the interdisciplinary catalog, and let \<open>s\<close> neither end in one or more
  digits followed by "ID" nor end in one or more digits, "ID" and one final newline (the
  two ways in which the pattern \<^verbatim>\<open>\d+ID$\<close> of the source matches). Then the resolver
  returns the empty area list for \<open>s\<close>, and in every table built from a resolver output
  over the same catalogs, each row of the course \<open>s\<close> has every flag cell blank.
\<close>

theorem absent_course_blank_row:
  assumes lk: "build_lookups selected_major b = Inr lk"
    and absent: "gened_fulfillment_map lk (HStr s) = None" "HStr s \<notin> major_core lk"
      "HStr s \<notin> major_elective lk" "HStr s \<notin> lib_art lk" "HStr s \<notin> adv_lib lk"
      "s \<notin> fst ` set (ID_data b)"
    and no_ID: "\<not> ends_in_digits_ID s"
    and no_ID_newline: "\<not> (\<exists>t. s = t @ [CHR 0x0A] \<and> ends_in_digits_ID t)"
    and fl: "map_gened_requirements courses selected_major b = Inr fl"
    and tbl: "process_curriculum_json nm tree areas fl = Inr rows"
  shows "map_gened_requirements [JStr s] selected_major b =
           Inr [\<lparr>Courses_in_Minor = JStr s, Fulfilled_Areas = []\<rparr>] \<and>
         (\<forall>row\<in>set rows. Course row = JStr s \<longrightarrow> (\<forall>f\<in>set (Flags row). snd f = []))"
proof -
  from no_ID no_ID_newline have no_match: "\<not> re_search_digits_ID s"
    by (simp add: re_search_digits_ID_spec)
  have one: "resolve_course lk (ID_data b) (JStr s) =
      Inr \<lparr>Courses_in_Minor = JStr s, Fulfilled_Areas = []\<rparr>"
    using absent no_match
    by (simp add: resolve_course_str fulfilled_before_ID_def major_lib_tags_def seed_areas_def)
  then have first: "map_gened_requirements [JStr s] selected_major b =
      Inr [\<lparr>Courses_in_Minor = JStr s, Fulfilled_Areas = []\<rparr>]"
    by (simp add: map_gened_requirements_def lk)
  from fl lk have fl': "mapE (resolve_course lk (ID_data b)) courses = Inr fl"
    by (simp add: map_gened_requirements_def)
  have "\<forall>f\<in>set (Flags row). snd f = []" if row: "row \<in> set rows" "Course row = JStr s" for row
  proof -
    from process_curriculum_json_rows [OF tbl row(1)] row(2) obtain fm a where
      fm: "build_fulfillment_map fl = Inr fm"
      and a: "fulfilled_areas_of fm (JStr s) = Inr a"
      and flags: "Flags row = map (\<lambda>g. (g, if JStr g \<in> set a then ''X'' else [])) areas"
      by auto
    have "a = []"
    proof (cases "fm (HStr s)")
      case None
      with a show ?thesis by (simp add: fulfilled_areas_of_def)
    next
      case (Some a')
      from build_fulfillment_map_Some [OF fm Some] obtain item where
        item: "item \<in> set fl" "hash_key (Courses_in_Minor item) = Inr (HStr s)"
          "Fulfilled_Areas item = a'" by blast
      from mapE_Inr_set [OF fl' item(1)] obtain c where
        c: "resolve_course lk (ID_data b) c = Inr item" by blast
      from resolve_course_Inr [OF c] item(2) have "c = JStr s" by (simp add: hash_key_HStr)
      with c one have "item = \<lparr>Courses_in_Minor = JStr s, Fulfilled_Areas = []\<rparr>" by simp
      with item(3) have "a' = []" by simp
      with Some a show ?thesis by (simp add: fulfilled_areas_of_def)
    qed
    with flags show ?thesis by simp
  qed
  with first show ?thesis by blast
qed

lemma resolved_X1_Z9:
  "map_gened_requirements [JStr ''X1'', JStr ''Z9''] ''MAJ'' shaped_bundle = Inr fl_X1_Z9"
  by (simp add: map_gened_requirements_def shaped_lookups_built shaped_bundle_ID
      resolve_course_str match_digits_ID_at_def is_digit_def fl_X1_Z9_def
      fulfilled_before_ID_def major_lib_tags_def seed_areas_def shaped_lookups_def)

lemma table_X1_Z9:
  "process_curriculum_json ''M'' tree_X1_Z9 gened_areas fl_X1_Z9 = Inr [row_X1, row_Z9]"
  by (simp add: process_curriculum_json_def build_fulfillment_map_def merge_entries_def
      fl_X1_Z9_def processed_list_def tree_X1_Z9_def section_rows_def section_item_def
      course_entry_def credit_string_course_title fulfilled_areas_of_def course_dict_def
      gened_areas_def row_X1_def row_Z9_def)

theorem absent_course_blank_row_witness:
  "build_lookups ''MAJ'' shaped_bundle = Inr shaped_lookups \<and>
   gened_fulfillment_map shaped_lookups (HStr ''Z9'') = None \<and>
   HStr ''Z9'' \<notin> major_core shaped_lookups \<and> HStr ''Z9'' \<notin> major_elective shaped_lookups \<and>
   HStr ''Z9'' \<notin> lib_art shaped_lookups \<and> HStr ''Z9'' \<notin> adv_lib shaped_lookups \<and>
   ''Z9'' \<notin> fst ` set (ID_data shaped_bundle) \<and> \<not> ends_in_digits_ID ''Z9'' \<and>
   \<not> (\<exists>t. ''Z9'' = t @ [CHR 0x0A] \<and> ends_in_digits_ID t) \<and>
   map_gened_requirements [JStr ''X1'', JStr ''Z9''] ''MAJ'' shaped_bundle = Inr fl_X1_Z9 \<and>
   process_curriculum_json ''M'' tree_X1_Z9 gened_areas fl_X1_Z9 = Inr [row_X1, row_Z9] \<and>
   map_gened_requirements [JStr ''Z9''] ''MAJ'' shaped_bundle =
     Inr [\<lparr>Courses_in_Minor = JStr ''Z9'', Fulfilled_Areas = []\<rparr>] \<and>
   Course row_Z9 = JStr ''Z9'' \<and> snd ` set (Flags row_Z9) = {[]}"
proof -
  have a: "gened_fulfillment_map shaped_lookups (HStr ''Z9'') = None"
      "HStr ''Z9'' \<notin> major_core shaped_lookups" "HStr ''Z9'' \<notin> major_elective shaped_lookups"
      "HStr ''Z9'' \<notin> lib_art shaped_lookups" "HStr ''Z9'' \<notin> adv_lib shaped_lookups"
    by (simp_all add: shaped_lookups_def)
  have i: "''Z9'' \<notin> fst ` set (ID_data shaped_bundle)" by (simp add: shaped_bundle_ID)
  have e: "\<not> ends_in_digits_ID ''Z9''" by (simp add: ends_in_digits_ID_eval)
  have n: "\<not> (\<exists>t. ''Z9'' = t @ [CHR 0x0A] \<and> ends_in_digits_ID t)"
    by (simp add: ends_with_char_eval)
  have z: "Course row_Z9 = JStr ''Z9''" "snd ` set (Flags row_Z9) = {[]}"
    by (simp_all add: row_Z9_def gened_areas_def)
  from absent_course_blank_row [OF shaped_lookups_built a i e n resolved_X1_Z9 table_X1_Z9]
    shaped_lookups_built a i e n resolved_X1_Z9 table_X1_Z9 z
  show ?thesis by simp
qed

text \<open>
  The claim as worded fails at the identifier "12ID" followed by a newline. It is absent
  from every catalog and does not end in digits followed by "ID", yet the resolver returns
  the area "ID" for it and its row has the "ID" flag set.
\<close>

lemma resolved_ID_newline:
  "map_gened_requirements [JStr ID_newline] ''MAJ'' shaped_bundle = Inr fl_ID_newline"
  by (simp add: map_gened_requirements_def shaped_lookups_built shaped_bundle_ID
      resolve_course_str match_digits_ID_at_def is_digit_def fl_ID_newline_def ID_newline_def
      fulfilled_before_ID_def major_lib_tags_def seed_areas_def shaped_lookups_def)

lemma table_ID_newline:
  "process_curriculum_json ''M'' tree_ID_newline gened_areas fl_ID_newline =
     Inr [row_ID_newline]"
  by (simp add: process_curriculum_json_def build_fulfillment_map_def merge_entries_def
      fl_ID_newline_def processed_list_def tree_ID_newline_def section_rows_def
      section_item_def course_entry_def credit_string_course_title fulfilled_areas_of_def
      course_dict_def gened_areas_def row_ID_newline_def)

theorem absent_course_newline_counterexample:
  "build_lookups ''MAJ'' shaped_bundle = Inr shaped_lookups \<and>
   gened_fulfillment_map shaped_lookups (HStr ID_newline) = None \<and>
   HStr ID_newline \<notin> major_core shaped_lookups \<and>
   HStr ID_newline \<notin> major_elective shaped_lookups \<and>
   HStr ID_newline \<notin> lib_art shaped_lookups \<and> HStr ID_newline \<notin> adv_lib shaped_lookups \<and>
   ID_newline \<notin> fst ` set (ID_data shaped_bundle) \<and> \<not> ends_in_digits_ID ID_newline \<and>
   map_gened_requirements [JStr ID_newline] ''MAJ'' shaped_bundle =
     Inr [\<lparr>Courses_in_Minor = JStr ID_newline, Fulfilled_Areas = [JStr ''ID'']\<rparr>] \<and>
   process_curriculum_json ''M'' tree_ID_newline gened_areas fl_ID_newline =
     Inr [row_ID_newline] \<and>
   Course row_ID_newline = JStr ID_newline \<and>
   map_of (Flags row_ID_newline) ''ID'' = Some ''X''"
proof -
  have a: "gened_fulfillment_map shaped_lookups (HStr ID_newline) = None"
      "HStr ID_newline \<notin> major_core shaped_lookups"
      "HStr ID_newline \<notin> major_elective shaped_lookups"
      "HStr ID_newline \<notin> lib_art shaped_lookups" "HStr ID_newline \<notin> adv_lib shaped_lookups"
    by (simp_all add: shaped_lookups_def ID_newline_def)
  have i: "ID_newline \<notin> fst ` set (ID_data shaped_bundle)" by (simp add: shaped_bundle_ID)
  have e: "\<not> ends_in_digits_ID ID_newline"
    by (simp add: ends_in_digits_ID_eval ID_newline_def)
  have r: "map_gened_requirements [JStr ID_newline] ''MAJ'' shaped_bundle =
     Inr [\<lparr>Courses_in_Minor = JStr ID_newline, Fulfilled_Areas = [JStr ''ID'']\<rparr>]"
    using resolved_ID_newline by (simp add: fl_ID_newline_def)
  have z: "Course row_ID_newline = JStr ID_newline"
      "map_of (Flags row_ID_newline) ''ID'' = Some ''X''"
    by (simp_all add: row_ID_newline_def)
  from shaped_lookups_built a i e r table_ID_newline z show ?thesis by simp
qed

section \<open>Row order\<close>

subsection \<open>The rows follow the tree\<close>

lemma map_of_None_iff: "map_of d k = None \<longleftrightarrow> k \<notin> fst ` set d"
  by (simp add: map_of_eq_None_iff)

lemma course_entry_course:
  assumes "course_entry fm sub dflt x = Inr p"
  shows "item_courses x = [p_Courses_in_Minor p]"
proof (cases x)
  case (JDict d)
  with assms show ?thesis
    by (auto simp: course_entry_def bindE_eq_Inr split: option.splits)
qed (use assms in \<open>simp_all add: course_entry_def\<close>)

lemma course_entries_courses:
  "mapE (course_entry fm sub dflt) xs = Inr ps \<Longrightarrow>
     map p_Courses_in_Minor ps = concat (map item_courses xs)"
proof (induction xs arbitrary: ps)
  case Nil
  then show ?case by simp
next
  case (Cons x xs)
  from Cons.prems obtain p ps' where p: "course_entry fm sub dflt x = Inr p"
    and ps': "mapE (course_entry fm sub dflt) xs = Inr ps'" and ps: "ps = p # ps'"
    by (auto simp: bindE_eq_Inr)
  from Cons.IH [OF ps'] course_entry_course [OF p] ps show ?case by simp
qed

lemma group_courses_order:
  assumes it: "py_iter cs = Inr infos"
    and ps: "mapE (course_entry fm sub dflt) infos = Inr ps"
  shows "map p_Courses_in_Minor ps = value_courses cs"
proof (cases cs)
  case (JList xs)
  with it ps show ?thesis by (simp add: course_entries_courses)
next
  case (JDict kvs)
  show ?thesis
  proof (cases kvs)
    case Nil
    with JDict it ps show ?thesis by auto
  next
    case (Cons kv kvs')
    with JDict it ps show ?thesis by (auto simp: course_entry_def)
  qed
next
  case (JStr s)
  show ?thesis
  proof (cases s)
    case Nil
    with JStr it ps show ?thesis by auto
  next
    case (Cons c s')
    with JStr it ps show ?thesis by (auto simp: course_entry_def)
  qed
qed (use it in simp_all)

lemma section_item_order:
  assumes "section_item fm dl dflt gl item = Inr ps"
  shows "map p_Courses_in_Minor ps = item_order item"
proof -
  from assms obtain hc where hc: "str_in ''Course'' item = Inr hc"
    by (auto simp: section_item_def bindE_eq_Inr)
  show ?thesis
  proof (cases hc)
    case True
    with assms hc obtain r where r: "course_entry fm dl dflt item = Inr r" and ps: "ps = [r]"
      by (auto simp: section_item_def bindE_eq_Inr)
    from r obtain d where d: "item = JDict d"
      by (cases item) (simp_all add: course_entry_def)
    from course_entry_course [OF r] d ps show ?thesis
      by (auto split: option.splits)
  next
    case False
    with assms hc obtain hg where hg: "str_in ''group'' item = Inr hg"
      by (auto simp: section_item_def bindE_eq_Inr)
    show ?thesis
    proof (cases hg)
      case True
      with assms hc hg \<open>\<not> hc\<close> obtain g cs infos where
        g: "py_getitem item ''group'' = Inr g" and cs: "py_getitem item ''courses'' = Inr cs"
        and it: "py_iter cs = Inr infos"
        and m: "mapE (course_entry fm (gl @ py_str g) (JStr [])) infos = Inr ps"
        by (auto simp: section_item_def bindE_eq_Inr)
      from g obtain d where d: "item = JDict d" by (cases item) simp_all
      from hc \<open>\<not> hc\<close> d have nc: "map_of d ''Course'' = None" by (simp add: map_of_None_iff)
      from g d obtain gv where gv: "map_of d ''group'' = Some gv" by (auto split: option.splits)
      from cs d have cv: "map_of d ''courses'' = Some cs" by (auto split: option.splits)
      from group_courses_order [OF it m] d nc gv cv show ?thesis by simp
    next
      case False
      with assms hc hg \<open>\<not> hc\<close> have ps: "ps = []" by (simp add: section_item_def)
      show ?thesis
      proof (cases item)
        case (JDict d)
        with hc hg \<open>\<not> hc\<close> False have "map_of d ''Course'' = None" "map_of d ''group'' = None"
          by (simp_all add: map_of_None_iff)
        with JDict ps show ?thesis by simp
      qed (simp_all add: ps)
    qed
  qed
qed

lemma section_items_order:
  "mapE (section_item fm dl dflt gl) items = Inr rss \<Longrightarrow>
     map p_Courses_in_Minor (concat rss) = concat (map item_order items)"
proof (induction items arbitrary: rss)
  case Nil
  then show ?case by simp
next
  case (Cons x xs)
  from Cons.prems obtain rs rss' where rs: "section_item fm dl dflt gl x = Inr rs"
    and rss': "mapE (section_item fm dl dflt gl) xs = Inr rss'" and e: "rss = rs # rss'"
    by (auto simp: bindE_eq_Inr)
  from Cons.IH [OF rss'] section_item_order [OF rs] e show ?case by simp
qed

lemma concat_item_order_strs: "concat (map item_order (map (\<lambda>x. JStr (f x)) xs)) = []"
  by (induction xs) simp_all

lemma section_rows_order:
  assumes "section_rows fm dl dflt gl sec = Inr ps"
  shows "map p_Courses_in_Minor ps = section_order sec"
proof -
  from assms obtain items rss where it: "py_iter sec = Inr items"
    and rss: "mapE (section_item fm dl dflt gl) items = Inr rss" and ps: "ps = concat rss"
    by (auto simp: section_rows_def bindE_eq_Inr)
  from section_items_order [OF rss] ps
  have *: "map p_Courses_in_Minor ps = concat (map item_order items)" by simp
  show ?thesis
  proof (cases sec)
    case (JList xs)
    with it * show ?thesis by simp
  next
    case (JDict kvs)
    with it * show ?thesis by (auto simp: concat_item_order_strs)
  next
    case (JStr s)
    with it * show ?thesis by (auto simp: concat_item_order_strs)
  qed (use it in simp_all)
qed

lemma processed_list_order:
  assumes "processed_list data fm = Inr ps"
  shows "map p_Courses_in_Minor ps = tree_order data"
proof -
  from assms obtain d where d: "data = JDict d"
    by (cases data) (simp_all add: processed_list_def)
  from assms obtain cs es crs ers where
    c: "py_get data ''Core'' (JList []) = Inr cs"
    and cr: "section_rows fm ''A. Mandatory Core Courses'' (JStr ''Mandatory'')
       ''B. Conditional Core: '' cs = Inr crs"
    and e: "py_get data ''Electives'' (JList []) = Inr es"
    and er: "section_rows fm ''A. General Electives List'' (JStr [])
       ''B. Conditional Elective: '' es = Inr ers"
    and ps: "ps = crs @ ers"
    unfolding processed_list_def bindE_eq_Inr by blast
  from c d have 1: "(case map_of d ''Core'' of None \<Rightarrow> [] | Some sec \<Rightarrow> section_order sec)
      = section_order cs" by (auto split: option.splits)
  from e d have 2: "(case map_of d ''Electives'' of None \<Rightarrow> [] | Some sec \<Rightarrow> section_order sec)
      = section_order es" by (auto split: option.splits)
  from section_rows_order [OF cr] section_rows_order [OF er] ps d 1 2 show ?thesis by simp
qed

subsection \<open>The rows do not depend on the resolver output, the flags apart\<close>

lemma course_entry_indep:
  "map_sum id (\<lambda>p. (p_Sub_Section p, p_Courses_in_Minor p, p_Name p, p_Credit p))
     (course_entry fm sub dflt x) =
   map_sum id (\<lambda>p. (p_Sub_Section p, p_Courses_in_Minor p, p_Name p, p_Credit p))
     (course_entry fm' sub dflt x)"
  by (auto simp: course_entry_def fulfilled_areas_of_def bindE_def split: sum.splits)

lemma mapE_indep:
  assumes "\<And>x. map_sum id k (f x) = map_sum id k (g x)"
  shows "map_sum id (map k) (mapE f xs) = map_sum id (map k) (mapE g xs)"
proof (induction xs)
  case Nil
  then show ?case by simp
next
  case (Cons x xs)
  show ?case
  proof (cases "f x")
    case (Inl e)
    with assms [of x] have "g x = Inl e" by (cases "g x") simp_all
    with Inl show ?thesis by simp
  next
    case (Inr y)
    with assms [of x] obtain y' where g: "g x = Inr y'" and k: "k y = k y'"
      by (cases "g x") simp_all
    show ?thesis
    proof (cases "mapE f xs")
      case (Inl e)
      with Cons.IH have "mapE g xs = Inl e" by (cases "mapE g xs") simp_all
      with Inl Inr g show ?thesis by simp
    next
      case r: (Inr ys)
      with Cons.IH obtain ys' where "mapE g xs = Inr ys'" "map k ys = map k ys'"
        by (cases "mapE g xs") simp_all
      with r Inr g k show ?thesis by simp
    qed
  qed
qed

lemma map_sum_bindE:
  "map_sum id h (bindE m f) = bindE m (\<lambda>x. map_sum id h (f x))"
  by (cases m) simp_all

lemma section_item_indep:
  "map_sum id (map (\<lambda>p. (p_Sub_Section p, p_Courses_in_Minor p, p_Name p, p_Credit p)))
     (section_item fm dl dflt gl item) =
   map_sum id (map (\<lambda>p. (p_Sub_Section p, p_Courses_in_Minor p, p_Name p, p_Credit p)))
     (section_item fm' dl dflt gl item)"
proof -
  let ?k = "\<lambda>p. (p_Sub_Section p, p_Courses_in_Minor p, p_Name p, p_Credit p)"
  have one: "map_sum id (map ?k) (bindE (course_entry fm dl dflt item) (\<lambda>r. Inr [r])) =
             map_sum id (map ?k) (bindE (course_entry fm' dl dflt item) (\<lambda>r. Inr [r]))"
    using course_entry_indep [of fm dl dflt item fm']
    by (cases "course_entry fm dl dflt item"; cases "course_entry fm' dl dflt item") simp_all
  have grp: "map_sum id (map ?k) (mapE (course_entry fm sub (JStr [])) infos) =
             map_sum id (map ?k) (mapE (course_entry fm' sub (JStr [])) infos)" for sub infos
    by (rule mapE_indep) (rule course_entry_indep)
  show ?thesis
  proof (cases "str_in ''Course'' item")
    case (Inl e)
    then show ?thesis by (simp add: section_item_def)
  next
    case hc: (Inr has_course)
    show ?thesis
    proof (cases has_course)
      case True
      with hc one show ?thesis by (simp add: section_item_def)
    next
      case False
      show ?thesis
      proof (cases "str_in ''group'' item")
        case (Inl e)
        with hc False show ?thesis by (simp add: section_item_def)
      next
        case hg: (Inr has_group)
        show ?thesis
        proof (cases has_group)
          case True
          with hc hg False grp show ?thesis
            by (cases "py_getitem item ''group''"; cases "py_getitem item ''courses''")
               (auto simp: section_item_def bindE_def split: sum.splits)
        next
          case nog: False
          with hc hg False show ?thesis by (simp add: section_item_def)
        qed
      qed
    qed
  qed
qed

lemma section_rows_indep:
  "map_sum id (map (\<lambda>p. (p_Sub_Section p, p_Courses_in_Minor p, p_Name p, p_Credit p)))
     (section_rows fm dl dflt gl sec) =
   map_sum id (map (\<lambda>p. (p_Sub_Section p, p_Courses_in_Minor p, p_Name p, p_Credit p)))
     (section_rows fm' dl dflt gl sec)"
proof -
  let ?k = "\<lambda>p. (p_Sub_Section p, p_Courses_in_Minor p, p_Name p, p_Credit p)"
  have m: "map_sum id (map (map ?k)) (mapE (section_item fm dl dflt gl) items) =
           map_sum id (map (map ?k)) (mapE (section_item fm' dl dflt gl) items)" for items
    by (rule mapE_indep) (rule section_item_indep)
  have c: "map_sum id (map ?k) (bindE (mapE (section_item fm dl dflt gl) items)
              (\<lambda>rss. Inr (concat rss))) =
           map_sum id (map ?k) (bindE (mapE (section_item fm' dl dflt gl) items)
              (\<lambda>rss. Inr (concat rss)))" for items
    using m [of items]
    by (cases "mapE (section_item fm dl dflt gl) items";
        cases "mapE (section_item fm' dl dflt gl) items")
       (simp_all add: map_concat)
  show ?thesis
    unfolding section_rows_def by (cases "py_iter sec") (simp_all add: c)
qed

lemma processed_list_indep:
  "map_sum id (map (\<lambda>p. (p_Sub_Section p, p_Courses_in_Minor p, p_Name p, p_Credit p)))
     (processed_list data fm) =
   map_sum id (map (\<lambda>p. (p_Sub_Section p, p_Courses_in_Minor p, p_Name p, p_Credit p)))
     (processed_list data fm')"
proof -
  let ?k = "\<lambda>p. (p_Sub_Section p, p_Courses_in_Minor p, p_Name p, p_Credit p)"
  have two: "map_sum id (map ?k) (bindE (section_rows fm a b c s1) (\<lambda>xs.
               bindE m2 (\<lambda>s2. bindE (section_rows fm a' b' c' s2) (\<lambda>ys. Inr (xs @ ys))))) =
             map_sum id (map ?k) (bindE (section_rows fm' a b c s1) (\<lambda>xs.
               bindE m2 (\<lambda>s2. bindE (section_rows fm' a' b' c' s2) (\<lambda>ys. Inr (xs @ ys)))))"
    for a b c s1 m2 a' b' c'
  proof (cases m2)
    case (Inl e)
    with section_rows_indep [of fm a b c s1 fm'] show ?thesis
      by (cases "section_rows fm a b c s1"; cases "section_rows fm' a b c s1") simp_all
  next
    case (Inr s2)
    with section_rows_indep [of fm a b c s1 fm'] section_rows_indep [of fm a' b' c' s2 fm']
    show ?thesis
      by (cases "section_rows fm a b c s1"; cases "section_rows fm' a b c s1";
          cases "section_rows fm a' b' c' s2"; cases "section_rows fm' a' b' c' s2") simp_all
  qed
  show ?thesis
    unfolding processed_list_def
    by (cases "py_get data ''Core'' (JList [])") (simp_all add: two)
qed

text \<open>
  Claim C3, as the source has it. The rows of the table are in the traversal order of the
  tree: all Core rows before all Electives rows, and within a section the items in source
  order, a conditional group contributing its entries at the place where the group
  stands. Sub-section, course, title and credit of every row are the same for every
  resolver output; only the flags depend on it. For Core=[A,B] and Electives=[C] the rows
  are A, B, C.
\<close>

theorem rows_in_source_order:
  assumes tbl: "process_curriculum_json nm data areas fl = Inr rows"
    and fm': "build_fulfillment_map fl' = Inr fm'"
  shows "map Course rows = tree_order data \<and>
         (\<exists>rows'. process_curriculum_json nm data areas fl' = Inr rows' \<and>
            map (\<lambda>r. (Sub_Section r, Course r, Name r, Credit r)) rows' =
            map (\<lambda>r. (Sub_Section r, Course r, Name r, Credit r)) rows)"
proof -
  let ?k = "\<lambda>p. (p_Sub_Section p, p_Courses_in_Minor p, p_Name p, p_Credit p)"
  from tbl obtain fm ps where fm: "build_fulfillment_map fl = Inr fm"
    and ps: "processed_list data fm = Inr ps" and rows: "rows = map (course_dict areas) ps"
    by (auto simp: process_curriculum_json_def bindE_eq_Inr)
  from processed_list_order [OF ps] rows have order: "map Course rows = tree_order data"
    by (simp add: course_dict_def o_def)
  from processed_list_indep [of data fm fm'] ps
  obtain ps' where ps': "processed_list data fm' = Inr ps'" and k: "map ?k ps = map ?k ps'"
    by (cases "processed_list data fm'") simp_all
  have "process_curriculum_json nm data areas fl' = Inr (map (course_dict areas) ps')"
    by (simp add: process_curriculum_json_def fm' ps')
  moreover have "map (\<lambda>r. (Sub_Section r, Course r, Name r, Credit r)) (map (course_dict areas) ps')
      = map (\<lambda>r. (Sub_Section r, Course r, Name r, Credit r)) rows"
    using k by (simp add: rows course_dict_def o_def)
  ultimately show ?thesis using order by blast
qed

text \<open>The tree Core=[A,B], Electives=[C] with an empty and with a non-empty resolver output.\<close>

lemma credit_string_course_only: "credit_string [(''Course'', c)] = Inr ''3''"
  by (simp add: credit_string_def get_credit_info_def explicit_credit_def dict_get_none_def
      py_lower_def lower_char_def is_min_max_def format_credit_def show_int_def
      show_nat.simps digit_char_def)

lemma table_ABC_blank:
  "process_curriculum_json ''M'' tree_ABC gened_areas [] =
     Inr [blank_row ''A. Mandatory Core Courses'' ''A'' ''Mandatory'',
          blank_row ''A. Mandatory Core Courses'' ''B'' ''Mandatory'',
          blank_row ''A. General Electives List'' ''C'' []]"
  by (simp add: process_curriculum_json_def build_fulfillment_map_def merge_entries_def
      processed_list_def tree_ABC_def section_rows_def section_item_def
      course_entry_def credit_string_course_only fulfilled_areas_of_def course_dict_def
      blank_row_def)

lemma fl_ABC_map:
  "build_fulfillment_map fl_ABC =
     Inr [HStr ''A'' \<mapsto> [JStr ''EC''], HStr ''B'' \<mapsto> [], HStr ''C'' \<mapsto> [JStr ''ID'', JStr ''SW'']]"
  by (simp add: build_fulfillment_map_def fl_ABC_def merge_entries_def)

theorem rows_in_source_order_witness:
  "process_curriculum_json ''M'' tree_ABC gened_areas [] =
     Inr [blank_row ''A. Mandatory Core Courses'' ''A'' ''Mandatory'',
          blank_row ''A. Mandatory Core Courses'' ''B'' ''Mandatory'',
          blank_row ''A. General Electives List'' ''C'' []] \<and>
   build_fulfillment_map fl_ABC =
     Inr [HStr ''A'' \<mapsto> [JStr ''EC''], HStr ''B'' \<mapsto> [], HStr ''C'' \<mapsto> [JStr ''ID'', JStr ''SW'']] \<and>
   tree_order tree_ABC = [JStr ''A'', JStr ''B'', JStr ''C''] \<and>
   map_sum id (map Course) (process_curriculum_json ''M'' tree_ABC gened_areas fl_ABC) =
     Inr [JStr ''A'', JStr ''B'', JStr ''C'']"
proof -
  have t: "tree_order tree_ABC = [JStr ''A'', JStr ''B'', JStr ''C'']"
    by (simp add: tree_ABC_def)
  from rows_in_source_order [OF table_ABC_blank fl_ABC_map]
  obtain rows' where r: "process_curriculum_json ''M'' tree_ABC gened_areas fl_ABC = Inr rows'"
    and k: "map (\<lambda>r. (Sub_Section r, Course r, Name r, Credit r)) rows' =
            map (\<lambda>r. (Sub_Section r, Course r, Name r, Credit r))
              [blank_row ''A. Mandatory Core Courses'' ''A'' ''Mandatory'',
               blank_row ''A. Mandatory Core Courses'' ''B'' ''Mandatory'',
               blank_row ''A. General Electives List'' ''C'' []]"
    by blast
  have "map Course rows' =
      map (\<lambda>t. fst (snd t)) (map (\<lambda>r. (Sub_Section r, Course r, Name r, Credit r)) rows')"
    by (simp add: o_def)
  also have "\<dots> = [JStr ''A'', JStr ''B'', JStr ''C'']"
    unfolding k by (simp add: blank_row_def)
  finally have "map Course rows' = [JStr ''A'', JStr ''B'', JStr ''C'']" .
  with r t table_ABC_blank fl_ABC_map show ?thesis by simp
qed

text \<open>
  The claim as worded fails on a Core section that lists a conditional group before a
  direct entry: the row of the group's course B comes first, the direct entry A second.
\<close>

theorem group_before_direct_counterexample:
  "process_curriculum_json ''M'' tree_group_first gened_areas [] =
     Inr [blank_row ''B. Conditional Core: G'' ''B'' [],
          blank_row ''A. Mandatory Core Courses'' ''A'' ''Mandatory'']"
  by (simp add: process_curriculum_json_def build_fulfillment_map_def merge_entries_def
      processed_list_def tree_group_first_def section_rows_def section_item_def
      course_entry_def credit_string_course_only fulfilled_areas_of_def course_dict_def
      blank_row_def)

section \<open>The resolver and the catalog objects\<close>

subsection \<open>Stores\<close>

lemma extends_refl: "extends s s"
  by (simp add: extends_def)

lemma extends_trans: "extends s s' \<Longrightarrow> extends s' s'' \<Longrightarrow> extends s s''"
  by (auto simp: extends_def)

lemma extends_new_list: "extends s (snd (new_list xs s))"
  by (simp add: extends_def new_list_def)

lemma extends_append: "next_ref s \<le> r \<Longrightarrow> extends s t \<Longrightarrow> extends s (list_append r v t)"
  by (auto simp: extends_def list_append_def split: option.splits)

lemma extends_append_if: "next_ref s \<le> r \<Longrightarrow> extends s t \<Longrightarrow> extends s (append_if c r v t)"
  by (simp add: append_if_def extends_append)

lemma next_ref_append_if [simp]: "next_ref (append_if c r v s) = next_ref s"
  by (simp add: append_if_def list_append_def split: option.splits)

lemma extends_aval_ok: "extends s s' \<Longrightarrow> aval_ok s a \<Longrightarrow> aval_ok s' a"
  by (cases a) (auto simp: extends_def dom_def)

lemma extends_read_aval: "extends s s' \<Longrightarrow> aval_ok s a \<Longrightarrow> read_aval s' a = read_aval s a"
  by (cases a) (auto simp: extends_def list_contents_def)

subsection \<open>The loop body keeps every earlier object\<close>

lemma resolve_course_st_extends:
  "extends s (snd (resolve_course_st lk ID c s))"
  unfolding resolve_course_st_def Let_def new_list_def
  by (auto split: sum.splits aval.splits option.splits intro!: extends_append_if)
     (simp_all add: extends_def)

lemma dom_heap_append_if [simp]: "dom (heap (append_if c r v s)) = dom (heap s)"
  by (auto simp: append_if_def list_append_def split: option.splits if_splits)

lemma list_contents_append_if:
  "r \<in> dom (heap s) \<Longrightarrow>
     list_contents (append_if c r v s) r = list_contents s r @ (if c then [v] else [])"
  by (auto simp: append_if_def list_append_def list_contents_def)

lemma fst_new_list [simp]: "fst (new_list xs s) = next_ref s"
  by (simp add: new_list_def)

lemma next_ref_new_list [simp]: "next_ref (snd (new_list xs s)) = Suc (next_ref s)"
  by (simp add: new_list_def)

lemma dom_heap_new_list [simp]:
  "dom (heap (snd (new_list xs s))) = insert (next_ref s) (dom (heap s))"
  by (simp add: new_list_def)

lemma list_contents_new_list:
  "list_contents (snd (new_list xs s)) r = (if r = next_ref s then xs else list_contents s r)"
  by (simp add: new_list_def list_contents_def)

lemma major_lib_tags_read [simp]: "major_lib_tags (read_lookups s lk) k = major_lib_tags lk k"
  by (simp add: major_lib_tags_def read_lookups_def)

lemma read_lookups_sets [simp]:
  "major_core (read_lookups s lk) = major_core lk"
  "major_elective (read_lookups s lk) = major_elective lk"
  "lib_art (read_lookups s lk) = lib_art lk"
  "adv_lib (read_lookups s lk) = adv_lib lk"
  by (simp_all add: read_lookups_def)

lemma major_lib_tags_alt:
  "major_lib_tags lk k =
     (if k \<in> major_core lk then [JStr ''Major_Core''] else [])
     @ (if k \<in> major_elective lk then [JStr ''Major_Elec''] else [])
     @ (if k \<in> lib_art lk then [JStr ''Lib Art''] else [])
     @ (if k \<in> adv_lib lk then [JStr ''Lib Art''] else [])
     @ (if k \<in> adv_lib lk then [JStr ''Adv Lib Art''] else [])"
  by (simp add: major_lib_tags_def)

lemma seed_areas_scalar: "\<not> is_list v \<Longrightarrow> seed_areas v = (if py_truthy v then [v] else [])"
  by (cases v) (simp_all add: seed_areas_def)

lemma seed_areas_list [simp]: "seed_areas (JList xs) = xs"
  by (simp add: seed_areas_def)

subsection \<open>The loop body computes what the value model computes\<close>

lemma resolve_course_st_alt:
  "resolve_course_st lk ID c s0 =
     (let s1 = snd (new_list [] s0)
      in case hash_key c of
           Inl e \<Rightarrow> (Inl e, s1)
         | Inr k \<Rightarrow>
            (let p2 = (case gened_fulfillment_map lk k of
                         None \<Rightarrow> (next_ref s0, s1)
                       | Some (ARef r) \<Rightarrow> (r, s1)
                       | Some (AVal v) \<Rightarrow> new_list (if py_truthy v then [v] else []) s1);
                 cur = next_ref (snd p2);
                 s3 = snd (new_list (list_contents (snd p2) (fst p2)) (snd p2));
                 s8 = append_if (k \<in> adv_lib lk) cur (JStr ''Adv Lib Art'')
                       (append_if (k \<in> adv_lib lk) cur (JStr ''Lib Art'')
                       (append_if (k \<in> lib_art lk) cur (JStr ''Lib Art'')
                       (append_if (k \<in> major_elective lk) cur (JStr ''Major_Elec'')
                       (append_if (k \<in> major_core lk) cur (JStr ''Major_Core'') s3))))
             in case is_ID ID c of
                  Inl e \<Rightarrow> (Inl e, s8)
                | Inr idc \<Rightarrow> (Inr (c, cur), append_if idc cur (JStr ''ID'') s8)))"
  by (simp add: resolve_course_st_def Let_def new_list_def
      split: sum.splits option.splits aval.splits)

lemma resolve_course_st_refines:
  assumes ok: "\<And>k a. gened_fulfillment_map lk k = Some a \<Longrightarrow> aval_ok s a"
  shows "case resolve_course_st lk ID c s of
           (Inl e, s') \<Rightarrow> resolve_course (read_lookups s lk) ID c = Inl e
         | (Inr cr, s') \<Rightarrow>
             next_ref s \<le> snd cr \<and> snd cr < next_ref s' \<and> snd cr \<in> dom (heap s') \<and>
             resolve_course (read_lookups s lk) ID c =
               Inr \<lparr>Courses_in_Minor = fst cr, Fulfilled_Areas = list_contents s' (snd cr)\<rparr>"
proof (cases "hash_key c")
  case (Inl e)
  then show ?thesis
    by (simp add: resolve_course_st_alt resolve_course_def)
next
  case (Inr k)
  define s1 where "s1 = snd (new_list [] s)"
  define p2 where "p2 = (case gened_fulfillment_map lk k of
                         None \<Rightarrow> (next_ref s, s1)
                       | Some (ARef r) \<Rightarrow> (r, s1)
                       | Some (AVal v) \<Rightarrow> new_list (if py_truthy v then [v] else []) s1)"
  have p2: "next_ref s \<le> next_ref (snd p2) \<and>
            list_contents (snd p2) (fst p2) =
              seed_areas (case gened_fulfillment_map (read_lookups s lk) k of
                            None \<Rightarrow> JList [] | Some a \<Rightarrow> a)"
  proof (cases "gened_fulfillment_map lk k")
    case None
    then show ?thesis
      by (simp add: p2_def s1_def list_contents_new_list read_lookups_def)
  next
    case (Some a)
    from ok [OF Some] have a: "aval_ok s a" .
    show ?thesis
    proof (cases a)
      case (ARef r)
      with a Some show ?thesis
        by (simp add: p2_def s1_def list_contents_new_list read_lookups_def)
    next
      case (AVal v)
      with a Some show ?thesis
        by (simp add: p2_def s1_def list_contents_new_list read_lookups_def seed_areas_scalar)
    qed
  qed
  show ?thesis
  proof (cases "is_ID ID c")
    case (Inl e)
    with Inr show ?thesis
      by (simp add: resolve_course_st_alt resolve_course_def Let_def)
  next
    case idc: (Inr idc)
    from Inr idc p2 [unfolded p2_def s1_def] show ?thesis
      unfolding resolve_course_st_alt resolve_course_def Let_def
      by (simp add: list_contents_append_if list_contents_new_list fulfilled_before_ID_def
          major_lib_tags_alt split del: if_split)
  qed
qed

subsection \<open>The loop\<close>

lemma extends_list_contents:
  "extends s s' \<Longrightarrow> r < next_ref s \<Longrightarrow> list_contents s' r = list_contents s r"
  by (simp add: extends_def list_contents_def)

lemma extends_read_lookups:
  assumes "extends s s'" and ok: "\<And>k a. gened_fulfillment_map lk k = Some a \<Longrightarrow> aval_ok s a"
  shows "read_lookups s' lk = read_lookups s lk"
proof -
  have "map_option (read_aval s') (gened_fulfillment_map lk k) =
        map_option (read_aval s) (gened_fulfillment_map lk k)" for k
    using extends_read_aval [OF assms(1)] ok by (cases "gened_fulfillment_map lk k") simp_all
  then show ?thesis by (simp add: read_lookups_def)
qed

lemma resolve_all_st_extends: "extends s (snd (resolve_all_st lk ID cs s))"
proof (induction cs arbitrary: s)
  case Nil
  show ?case by (simp add: extends_refl)
next
  case (Cons c cs)
  obtain r1 s1 where 1: "resolve_course_st lk ID c s = (r1, s1)" by fastforce
  with resolve_course_st_extends [of s lk ID c] have e1: "extends s s1" by simp
  show ?case
  proof (cases r1)
    case (Inl e)
    with 1 e1 show ?thesis by simp
  next
    case (Inr x)
    obtain r2 s2 where 2: "resolve_all_st lk ID cs s1 = (r2, s2)" by fastforce
    with Cons.IH [of s1] have "extends s1 s2" by simp
    with e1 have "extends s s2" by (rule extends_trans)
    with 1 2 Inr show ?thesis by (cases r2) simp_all
  qed
qed

lemma resolve_all_st_refines:
  assumes ok: "\<And>k a. gened_fulfillment_map lk k = Some a \<Longrightarrow> aval_ok s a"
  shows "read_results (snd (resolve_all_st lk ID cs s)) (fst (resolve_all_st lk ID cs s)) =
           mapE (resolve_course (read_lookups s lk) ID) cs \<and>
         (\<forall>res. fst (resolve_all_st lk ID cs s) = Inr res \<longrightarrow>
            (\<forall>cr\<in>set res. snd cr < next_ref (snd (resolve_all_st lk ID cs s))))"
  using ok
proof (induction cs arbitrary: s)
  case Nil
  show ?case by (simp add: read_results_def)
next
  case (Cons c cs)
  obtain r1 s1 where 1: "resolve_course_st lk ID c s = (r1, s1)" by fastforce
  from resolve_course_st_extends [of s lk ID c] 1 have e1: "extends s s1" by simp
  note ref = resolve_course_st_refines [of lk s ID c, OF Cons.prems, unfolded 1]
  show ?case
  proof (cases r1)
    case (Inl e)
    with ref 1 show ?thesis by (simp add: read_results_def)
  next
    case (Inr cr)
    with ref have cr: "snd cr < next_ref s1"
      and pure: "resolve_course (read_lookups s lk) ID c =
        Inr \<lparr>Courses_in_Minor = fst cr, Fulfilled_Areas = list_contents s1 (snd cr)\<rparr>"
      by simp_all
    have ok1: "\<And>k a. gened_fulfillment_map lk k = Some a \<Longrightarrow> aval_ok s1 a"
      using extends_aval_ok [OF e1] Cons.prems by blast
    have rl: "read_lookups s1 lk = read_lookups s lk"
      using extends_read_lookups [OF e1] Cons.prems by blast
    obtain r2 s2 where 2: "resolve_all_st lk ID cs s1 = (r2, s2)" by fastforce
    from resolve_all_st_extends [of s1 lk ID cs] 2 have e2: "extends s1 s2" by simp
    from Cons.IH [of s1, OF ok1] 2 rl
    have ih: "read_results s2 r2 = mapE (resolve_course (read_lookups s lk) ID) cs"
      and ihb: "\<forall>res. r2 = Inr res \<longrightarrow> (\<forall>cr\<in>set res. snd cr < next_ref s2)"
      by simp_all
    from extends_list_contents [OF e2 cr]
    have lc: "list_contents s2 (snd cr) = list_contents s1 (snd cr)" .
    from e2 cr have cr2: "snd cr < next_ref s2" by (simp add: extends_def)
    show ?thesis
    proof (cases r2)
      case (Inl e)
      with ih have "mapE (resolve_course (read_lookups s lk) ID) cs = Inl e"
        by (simp add: read_results_def)
      with 1 2 Inr Inl pure show ?thesis by (simp add: read_results_def)
    next
      case r: (Inr xs)
      with ih have "mapE (resolve_course (read_lookups s lk) ID) cs =
          Inr (map (\<lambda>cr. \<lparr>Courses_in_Minor = fst cr,
                            Fulfilled_Areas = list_contents s2 (snd cr)\<rparr>) xs)"
        by (simp add: read_results_def)
      with 1 2 Inr r pure lc cr2 ihb show ?thesis by (simp add: read_results_def)
    qed
  qed
qed

subsection \<open>Loading the catalog\<close>

lemma store_entries_props:
  "extends s0 (snd (store_entries es s0)) \<and>
   (\<forall>ka\<in>set (fst (store_entries es s0)).
      aval_ok (snd (store_entries es s0)) (snd ka) \<and>
      (\<forall>r. snd ka = ARef r \<longrightarrow> next_ref s0 \<le> r)) \<and>
   map (\<lambda>ka. (fst ka, read_aval (snd (store_entries es s0)) (snd ka)))
     (fst (store_entries es s0)) = es"
proof (induction es arbitrary: s0)
  case Nil
  show ?case by (simp add: extends_refl)
next
  case (Cons kv es)
  obtain k v where kv: "kv = (k, v)" by (cases kv)
  show ?case
  proof (cases "is_list v")
    case True
    then obtain xs where v: "v = JList xs" by (cases v) simp_all
    let ?s' = "snd (new_list xs s0)"
    obtain res s2 where r: "store_entries es ?s' = (res, s2)" by fastforce
    from Cons.IH [of ?s'] r have e: "extends ?s' s2"
      and okr: "\<forall>ka\<in>set res. aval_ok s2 (snd ka) \<and> (\<forall>r. snd ka = ARef r \<longrightarrow> next_ref ?s' \<le> r)"
      and rd: "map (\<lambda>ka. (fst ka, read_aval s2 (snd ka))) res = es"
      by simp_all
    have e0: "extends s0 s2" using extends_new_list [of s0 xs] e by (rule extends_trans)
    have st: "store_entries (kv # es) s0 = ((k, ARef (next_ref s0)) # res, s2)"
      using r by (simp add: kv v split: prod.splits) (simp add: new_list_def)
    have ok0: "aval_ok ?s' (ARef (next_ref s0))" by simp
    from extends_aval_ok [OF e ok0] have ok2: "aval_ok s2 (ARef (next_ref s0))" .
    have "list_contents s2 (next_ref s0) = list_contents ?s' (next_ref s0)"
      by (rule extends_list_contents [OF e]) simp
    then have lc: "list_contents s2 (next_ref s0) = xs" by (simp add: list_contents_new_list)
    from okr have okr': "\<forall>ka\<in>set res. aval_ok s2 (snd ka) \<and> (\<forall>r. snd ka = ARef r \<longrightarrow> next_ref s0 \<le> r)"
      by auto
    show ?thesis
      unfolding st using e0 ok2 lc okr' rd by (simp add: kv v)
  next
    case False
    obtain res s2 where r: "store_entries es s0 = (res, s2)" by fastforce
    from Cons.IH [of s0] r have e: "extends s0 s2"
      and okr: "\<forall>ka\<in>set res. aval_ok s2 (snd ka) \<and> (\<forall>r. snd ka = ARef r \<longrightarrow> next_ref s0 \<le> r)"
      and rd: "map (\<lambda>ka. (fst ka, read_aval s2 (snd ka))) res = es"
      by simp_all
    have st: "store_entries (kv # es) s0 = ((k, AVal v) # res, s2)"
      using r False by (cases v) (simp_all add: kv)
    show ?thesis
      unfolding st using e okr rd False by (simp add: kv)
  qed
qed

lemma merge_entries_read:
  assumes "map (\<lambda>ka. (fst ka, f (snd ka))) refs = es"
  shows "map_option f (merge_entries refs k) = merge_entries es k"
proof -
  have "map_of (map (\<lambda>ka. (fst ka, f (snd ka))) xs) k = map_option f (map_of xs k)" for xs
    by (induction xs) simp_all
  from this [of "rev refs"] show ?thesis
    unfolding assms [symmetric] by (simp add: merge_entries_map_of rev_map)
qed

subsection \<open>The catalog after the resolver\<close>

text \<open>
  Claim C9. Load the entries of the gen-ed catalog into a store, let the gen-ed lookup hold
  the references to their area lists, and run the resolver loop twice over the same
  courses. Every area list of the catalog is, after the first run and after the second,
  the object it was after loading, and the catalog read back from either store is the
  catalog that was loaded: the appends go to the copy that
  \<^verbatim>\<open>current_fulfilled = list(fulfilled_geneds)\<close> makes. Both runs return, read in their
  final stores, what the resolver of the value model returns on the loaded catalog, so the
  second analysis sees the same catalog and gives the same result as the first.
\<close>

theorem resolver_leaves_catalog_unchanged:
  assumes load: "store_entries es s0 = (refs, s1)"
    and gm: "gened_fulfillment_map lk = merge_entries refs"
    and run1: "resolve_all_st lk ID courses s1 = (res1, s2)"
    and run2: "resolve_all_st lk ID courses s2 = (res2, s3)"
  shows "(\<forall>ka\<in>set refs. \<forall>r. snd ka = ARef r \<longrightarrow>
            r \<in> dom (heap s1) \<and> heap s2 r = heap s1 r \<and> heap s3 r = heap s1 r) \<and>
         map (\<lambda>ka. (fst ka, read_aval s2 (snd ka))) refs = es \<and>
         map (\<lambda>ka. (fst ka, read_aval s3 (snd ka))) refs = es \<and>
         gened_fulfillment_map (read_lookups s1 lk) = merge_entries es \<and>
         read_results s2 res1 = mapE (resolve_course (read_lookups s1 lk) ID) courses \<and>
         read_results s3 res2 = mapE (resolve_course (read_lookups s1 lk) ID) courses"
proof -
  from store_entries_props [of s0 es] load
  have okr: "\<forall>ka\<in>set refs. aval_ok s1 (snd ka)"
    and rd1: "map (\<lambda>ka. (fst ka, read_aval s1 (snd ka))) refs = es"
    by simp_all
  have ok1: "aval_ok s1 a" if "gened_fulfillment_map lk k = Some a" for k a
  proof -
    from that gm have "(k, a) \<in> set refs" by (simp add: merge_entries_Some)
    with okr show ?thesis by force
  qed
  from resolve_all_st_extends [of s1 lk ID courses] run1 have e12: "extends s1 s2" by simp
  from resolve_all_st_extends [of s2 lk ID courses] run2 have e23: "extends s2 s3" by simp
  from e12 e23 have e13: "extends s1 s3" by (rule extends_trans)
  have ok2: "aval_ok s2 a" if "gened_fulfillment_map lk k = Some a" for k a
    using extends_aval_ok [OF e12 ok1 [OF that]] .
  have frame: "\<forall>ka\<in>set refs. \<forall>r. snd ka = ARef r \<longrightarrow>
            r \<in> dom (heap s1) \<and> heap s2 r = heap s1 r \<and> heap s3 r = heap s1 r"
  proof (intro ballI allI impI)
    fix ka r assume "ka \<in> set refs" "snd ka = ARef r"
    with okr have "r < next_ref s1" "r \<in> dom (heap s1)" by force+
    with e12 e13 show "r \<in> dom (heap s1) \<and> heap s2 r = heap s1 r \<and> heap s3 r = heap s1 r"
      by (simp add: extends_def)
  qed
  have rd2: "map (\<lambda>ka. (fst ka, read_aval s2 (snd ka))) refs = es"
    using okr extends_read_aval [OF e12] unfolding rd1 [symmetric] by simp
  have rd3: "map (\<lambda>ka. (fst ka, read_aval s3 (snd ka))) refs = es"
    using okr extends_read_aval [OF e13] unfolding rd1 [symmetric] by simp
  have pure: "gened_fulfillment_map (read_lookups s1 lk) = merge_entries es"
    by (rule ext) (simp add: read_lookups_def gm merge_entries_read [OF rd1])
  from resolve_all_st_refines [of lk s1 ID courses, OF ok1] run1
  have r1: "read_results s2 res1 = mapE (resolve_course (read_lookups s1 lk) ID) courses"
    by simp
  have rl: "read_lookups s2 lk = read_lookups s1 lk"
    using extends_read_lookups [OF e12] ok1 by blast
  from resolve_all_st_refines [of lk s2 ID courses, OF ok2] run2 rl
  have r2: "read_results s3 res2 = mapE (resolve_course (read_lookups s1 lk) ID) courses"
    by simp
  from frame rd2 rd3 pure r1 r2 show ?thesis by blast
qed

lemma load_G1: "store_entries entries_G1 empty_store = ([(HStr ''G1'', ARef 0)], store_1)"
  by (simp add: entries_G1_def empty_store_def store_1_def new_list_def)

lemma run1_G1: "resolve_all_st lookups_G1 [] [JStr ''G1''] store_1 = (Inr [(JStr ''G1'', 2)], store_2)"
  by (simp add: resolve_course_st_alt lookups_G1_def merge_entries_def store_1_def store_2_def
      new_list_def append_if_def list_append_def list_contents_def is_ID_def Let_def
      match_digits_ID_at_def is_digit_def eval_nat_numeral)

lemma run2_G1: "resolve_all_st lookups_G1 [] [JStr ''G1''] store_2 = (Inr [(JStr ''G1'', 4)], store_3)"
  by (simp add: resolve_course_st_alt lookups_G1_def merge_entries_def store_2_def store_3_def
      new_list_def append_if_def list_append_def list_contents_def is_ID_def Let_def
      match_digits_ID_at_def is_digit_def eval_nat_numeral)

theorem resolver_leaves_catalog_unchanged_witness:
  "store_entries entries_G1 empty_store = ([(HStr ''G1'', ARef 0)], store_1) \<and>
   gened_fulfillment_map lookups_G1 = merge_entries [(HStr ''G1'', ARef 0)] \<and>
   resolve_all_st lookups_G1 [] [JStr ''G1''] store_1 = (Inr [(JStr ''G1'', 2)], store_2) \<and>
   resolve_all_st lookups_G1 [] [JStr ''G1''] store_2 = (Inr [(JStr ''G1'', 4)], store_3) \<and>
   heap store_1 0 = Some [JStr ''EC''] \<and> heap store_2 0 = Some [JStr ''EC''] \<and>
   heap store_3 0 = Some [JStr ''EC''] \<and>
   read_results store_2 (Inr [(JStr ''G1'', 2)]) =
     Inr [\<lparr>Courses_in_Minor = JStr ''G1'', Fulfilled_Areas = [JStr ''EC'', JStr ''Major_Core'']\<rparr>] \<and>
   read_results store_3 (Inr [(JStr ''G1'', 4)]) =
     Inr [\<lparr>Courses_in_Minor = JStr ''G1'', Fulfilled_Areas = [JStr ''EC'', JStr ''Major_Core'']\<rparr>]"
proof -
  have gm: "gened_fulfillment_map lookups_G1 = merge_entries [(HStr ''G1'', ARef 0)]"
    by (simp add: lookups_G1_def)
  have h: "heap store_1 0 = Some [JStr ''EC'']" "heap store_2 0 = Some [JStr ''EC'']"
    "heap store_3 0 = Some [JStr ''EC'']"
    by (simp_all add: store_1_def store_2_def store_3_def)
  have rr: "read_results store_2 (Inr [(JStr ''G1'', 2)]) =
     Inr [\<lparr>Courses_in_Minor = JStr ''G1'', Fulfilled_Areas = [JStr ''EC'', JStr ''Major_Core'']\<rparr>]"
    "read_results store_3 (Inr [(JStr ''G1'', 4)]) =
     Inr [\<lparr>Courses_in_Minor = JStr ''G1'', Fulfilled_Areas = [JStr ''EC'', JStr ''Major_Core'']\<rparr>]"
    by (simp_all add: read_results_def list_contents_def store_2_def store_3_def)
  from resolver_leaves_catalog_unchanged [OF load_G1 gm run1_G1 run2_G1]
    load_G1 gm run1_G1 run2_G1 h rr
  show ?thesis by simp
qed

end
